theory Spec2Isabelle
  imports Main "HOL-Library.Char_ord" "HOL-Library.List_Lexorder"
begin

section \<open>The Worker API handler\<close>

text \<open>
  The backend is the \<open>fetch\<close> handler of the Cloudflare Worker. It is modelled as a
  function from a request and the environment (the D1 table of memos, the KV namespace and
  the configuration) to a response and the updated environment. What the handler reads
  from outside (the clock, the random token of a login) is passed in as \<open>ambient\<close>.
  CORS headers are attached to every response after it is built and never change its
  status or body; they are left out.
\<close>

subsection \<open>JSON values and JavaScript tests on them\<close>

datatype json =
    JNull
  | JBool bool
  | JNum int
  | JStr string
  | JArr "json list"
  | JObj "(string \<times> json) list"

text \<open>JavaScript truthiness of a parsed JSON value.\<close>

fun truthy :: "json \<Rightarrow> bool" where
  "truthy JNull = False"
| "truthy (JBool b) = b"
| "truthy (JNum n) = (n \<noteq> 0)"
| "truthy (JStr s) = (s \<noteq> [])"
| "truthy (JArr xs) = True"
| "truthy (JObj kvs) = True"

text \<open>
  Property access \<open>v.k\<close> for the keys the handler reads (\<open>password\<close>, \<open>content\<close>,
  \<open>text\<close>): only an object can have them; \<open>None\<close> is \<open>undefined\<close>.
\<close>

fun get_prop :: "json \<Rightarrow> string \<Rightarrow> json option" where
  "get_prop (JObj kvs) k = map_of kvs k"
| "get_prop v k = None"

text \<open>\<open>!body\<close> where \<open>body\<close> is the result of \<open>readJson\<close> (\<open>None\<close> is \<open>null\<close>).\<close>

definition falsy :: "json option \<Rightarrow> bool" where
  "falsy b = (case b of None \<Rightarrow> True | Some v \<Rightarrow> \<not> truthy v)"

text \<open>\<open>body?.k\<close>\<close>

definition opt_prop :: "json option \<Rightarrow> string \<Rightarrow> json option" where
  "opt_prop b k = (case b of None \<Rightarrow> None | Some v \<Rightarrow> get_prop v k)"

text \<open>
  The guard \<open>!body || typeof body.k !== "string"\<close>: the result is the string when the
  guard lets the request through and \<open>None\<close> when it rejects it.
\<close>

definition string_field :: "json option \<Rightarrow> string \<Rightarrow> string option" where
  "string_field b k =
     (if falsy b then None
      else (case opt_prop b k of Some (JStr s) \<Rightarrow> Some s | _ \<Rightarrow> None))"

subsection \<open>Strings\<close>

definition starts_with :: "string \<Rightarrow> string \<Rightarrow> bool" where
  "starts_with p s = (take (length p) s = p)"

text \<open>\<open>s.split(sep)\<close> for a one-character separator.\<close>

fun split_on :: "char \<Rightarrow> string \<Rightarrow> string list" where
  "split_on sep [] = [[]]"
| "split_on sep (c # cs) =
     (if c = sep then [] # split_on sep cs
      else (case split_on sep cs of
              [] \<Rightarrow> [[c]]
            | p # ps \<Rightarrow> (c # p) # ps))"

definition is_digit :: "char \<Rightarrow> bool" where
  "is_digit c = (c \<in> set ''0123456789'')"

text \<open>
  \<open>Number(ds)\<close> for a string of decimal digits, and the decimal text of a number as a
  template literal prints it. Both are exact below \<open>2^53\<close>, which covers every row id.
\<close>

definition Number_digits :: "string \<Rightarrow> nat" where
  "Number_digits ds = foldl (\<lambda>n c. 10 * n + (of_char c - 48)) 0 ds"

fun number_to_string :: "nat \<Rightarrow> string" where
  "number_to_string n =
     (if n < 10 then [char_of (48 + n)]
      else number_to_string (n div 10) @ [char_of (48 + n mod 10)])"

declare number_to_string.simps [simp del]

subsection \<open>Rows, stores and the environment\<close>

record memo_row =
  memo_id :: nat
  content :: string
  created_at :: string
  updated_at :: string

definition memo_json :: "memo_row \<Rightarrow> json" where
  "memo_json r =
     JObj [(''id'', JNum (int (memo_id r))), (''content'', JStr (content r)),
           (''created_at'', JStr (created_at r)), (''updated_at'', JStr (updated_at r))]"

text \<open>
  Modelled from the spec: the \<open>memos\<close> table (its migration is not among the sources).
  The store assigns the identifier on creation and never reuses one: \<open>seq\<close> is the last
  identifier handed out.
\<close>

record d1_database =
  rows :: "memo_row list"
  seq :: nat

text \<open>
  A KV entry is a value and the time (in seconds) at which it expires. A value is held as
  the JSON document its text denotes: the handler only stores texts produced by
  \<open>JSON.stringify\<close> (and the text \<open>1\<close> for a session), reads them back with
  \<open>JSON.parse\<close>, and such a text is never empty, so that a fetched value is truthy
  exactly when the key is live.
\<close>

type_synonym kv_namespace = "string \<Rightarrow> (json \<times> nat) option"

datatype store_op =
    KvGet string
  | KvPut string json nat
  | KvDelete string
  | DbSelectAll
  | DbSelectById nat
  | DbInsert string string string
  | DbUpdate string string nat
  | DbDelete nat

text \<open>
  The environment of the Worker. The three time-to-live settings stand for
  \<open>Number(value)\<close> of the configured text: \<open>None\<close> when it is not set or not a
  finite number. \<open>ops\<close> is not in the source: it records, in order, every operation the
  handler performs on the two stores.
\<close>

record Env =
  DB :: d1_database
  MEMO_KV :: kv_namespace
  APP_PASSWORD :: string
  SESSION_TTL_SECONDS :: "int option"
  CLIP_TTL_SECONDS :: "int option"
  CACHE_TTL_SECONDS :: "int option"
  ops :: "store_op list"

record ambient =
  now_s :: nat
  now_iso :: string
  random_uuid :: string

record request =
  req_method :: string
  pathname :: string
  authorization :: "string option"
  json_body :: "json option"

record response =
  status :: nat
  body :: "json option"

definition API_PREFIX :: string where
  "API_PREFIX = ''/api''"

definition MEMO_LIST_CACHE_KEY :: string where
  "MEMO_LIST_CACHE_KEY = ''memo:list''"

definition CLIP_CACHE_KEY :: string where
  "CLIP_CACHE_KEY = ''clip:latest''"

definition jsonResponse :: "json \<Rightarrow> nat \<Rightarrow> response" where
  "jsonResponse data st = \<lparr>status = st, body = Some data\<rparr>"

definition error_json :: "string \<Rightarrow> json" where
  "error_json code = JObj [(''error'', JStr code)]"

definition getNumberEnv :: "int option \<Rightarrow> nat \<Rightarrow> nat" where
  "getNumberEnv v fallback =
     (case v of None \<Rightarrow> fallback | Some n \<Rightarrow> if 0 < n then nat n else fallback)"

subsection \<open>Store operations\<close>

definition kv_get :: "nat \<Rightarrow> string \<Rightarrow> Env \<Rightarrow> json option \<times> Env" where
  "kv_get t k e =
     ((case MEMO_KV e k of
         None \<Rightarrow> None
       | Some (v, expires) \<Rightarrow> if t < expires then Some v else None),
      e\<lparr>ops := ops e @ [KvGet k]\<rparr>)"

definition kv_put :: "nat \<Rightarrow> string \<Rightarrow> json \<Rightarrow> nat \<Rightarrow> Env \<Rightarrow> Env" where
  "kv_put t k v ttl e =
     e\<lparr>MEMO_KV := (MEMO_KV e)(k \<mapsto> (v, t + ttl)), ops := ops e @ [KvPut k v ttl]\<rparr>"

definition kv_delete :: "string \<Rightarrow> Env \<Rightarrow> Env" where
  "kv_delete k e = e\<lparr>MEMO_KV := (MEMO_KV e)(k := None), ops := ops e @ [KvDelete k]\<rparr>"

text \<open>
  \<open>ORDER BY updated_at DESC\<close> compares the timestamp texts; SQL leaves the order of
  equal keys open, here the later row comes first.
\<close>

definition order_by_updated_at_desc :: "memo_row list \<Rightarrow> memo_row list" where
  "order_by_updated_at_desc rs = rev (sort_key updated_at rs)"

definition db_all :: "Env \<Rightarrow> memo_row list \<times> Env" where
  "db_all e = (order_by_updated_at_desc (rows (DB e)), e\<lparr>ops := ops e @ [DbSelectAll]\<rparr>)"

definition db_first :: "nat \<Rightarrow> Env \<Rightarrow> memo_row option \<times> Env" where
  "db_first i e =
     (find (\<lambda>r. memo_id r = i) (rows (DB e)), e\<lparr>ops := ops e @ [DbSelectById i]\<rparr>)"

text \<open>\<open>INSERT\<close>: the result is \<open>meta.last_row_id\<close>.\<close>

definition db_insert :: "string \<Rightarrow> string \<Rightarrow> string \<Rightarrow> Env \<Rightarrow> nat \<times> Env" where
  "db_insert c created updated e =
     (let i = Suc (seq (DB e));
          r = \<lparr>memo_id = i, content = c, created_at = created, updated_at = updated\<rparr>
      in (i, e\<lparr>DB := \<lparr>rows = rows (DB e) @ [r], seq = i\<rparr>,
               ops := ops e @ [DbInsert c created updated]\<rparr>))"

text \<open>\<open>UPDATE\<close> and \<open>DELETE\<close>: the result is \<open>meta.changes\<close>.\<close>

definition db_update :: "string \<Rightarrow> string \<Rightarrow> nat \<Rightarrow> Env \<Rightarrow> nat \<times> Env" where
  "db_update c updated i e =
     (length (filter (\<lambda>r. memo_id r = i) (rows (DB e))),
      e\<lparr>DB := (DB e)\<lparr>rows :=
             map (\<lambda>r. if memo_id r = i then r\<lparr>content := c, updated_at := updated\<rparr> else r)
               (rows (DB e))\<rparr>,
        ops := ops e @ [DbUpdate c updated i]\<rparr>)"

definition db_delete :: "nat \<Rightarrow> Env \<Rightarrow> nat \<times> Env" where
  "db_delete i e =
     (length (filter (\<lambda>r. memo_id r = i) (rows (DB e))),
      e\<lparr>DB := (DB e)\<lparr>rows := filter (\<lambda>r. memo_id r \<noteq> i) (rows (DB e))\<rparr>,
        ops := ops e @ [DbDelete i]\<rparr>)"

subsection \<open>Authentication\<close>

definition getBearerToken :: "request \<Rightarrow> string option" where
  "getBearerToken r =
     (let header = (case authorization r of None \<Rightarrow> [] | Some h \<Rightarrow> h)
      in (case split_on CHR '' '' header of
            ty # tok # rest \<Rightarrow> if ty \<noteq> ''Bearer'' \<or> tok = [] then None else Some tok
          | _ \<Rightarrow> None))"

definition requireAuth :: "ambient \<Rightarrow> request \<Rightarrow> Env \<Rightarrow> (response + string) \<times> Env" where
  "requireAuth a r e =
     (case getBearerToken r of
        None \<Rightarrow> (Inl (jsonResponse (error_json ''unauthorized'') 401), e)
      | Some tok \<Rightarrow>
          (case kv_get (now_s a) (''auth:token:'' @ tok) e of
             (None, e1) \<Rightarrow> (Inl (jsonResponse (error_json ''unauthorized'') 401), e1)
           | (Some v, e1) \<Rightarrow> (Inr tok, e1)))"

subsection \<open>The routes\<close>

definition login :: "ambient \<Rightarrow> request \<Rightarrow> Env \<Rightarrow> response \<times> Env" where
  "login a r e =
     (let b = json_body r; pw = opt_prop b ''password''
      in if falsy pw \<or> pw \<noteq> Some (JStr (APP_PASSWORD e))
         then (jsonResponse (error_json ''invalid_credentials'') 401, e)
         else (let tok = random_uuid a;
                   ttl = getNumberEnv (SESSION_TTL_SECONDS e) (60 * 60 * 24 * 7);
                   e1 = kv_put (now_s a) (''auth:token:'' @ tok) (JNum 1) ttl e
               in (jsonResponse (JObj [(''token'', JStr tok)]) 200, e1)))"

definition list_memos :: "ambient \<Rightarrow> Env \<Rightarrow> response \<times> Env" where
  "list_memos a e =
     (case kv_get (now_s a) MEMO_LIST_CACHE_KEY e of
        (Some cached, e1) \<Rightarrow> (jsonResponse cached 200, e1)
      | (None, e1) \<Rightarrow>
          (case db_all e1 of
             (rs, e2) \<Rightarrow>
               (let ttl = getNumberEnv (CACHE_TTL_SECONDS e2) 60;
                    e3 = kv_put (now_s a) MEMO_LIST_CACHE_KEY (JArr (map memo_json rs)) ttl e2
                in (jsonResponse (JArr (map memo_json rs)) 200, e3))))"

definition create_memo :: "ambient \<Rightarrow> request \<Rightarrow> Env \<Rightarrow> response \<times> Env" where
  "create_memo a r e =
     (case string_field (json_body r) ''content'' of
        None \<Rightarrow> (jsonResponse (error_json ''invalid_payload'') 400, e)
      | Some c \<Rightarrow>
          (let now = now_iso a in
           (case db_insert c now now e of
              (i, e1) \<Rightarrow>
                (let e2 = kv_delete MEMO_LIST_CACHE_KEY e1;
                     memo = \<lparr>memo_id = i, content = c, created_at = now, updated_at = now\<rparr>
                 in (jsonResponse (memo_json memo) 201, e2)))))"

definition get_memo :: "ambient \<Rightarrow> nat \<Rightarrow> Env \<Rightarrow> response \<times> Env" where
  "get_memo a i e =
     (let cacheKey = ''memo:'' @ number_to_string i in
      (case kv_get (now_s a) cacheKey e of
         (Some cached, e1) \<Rightarrow> (jsonResponse cached 200, e1)
       | (None, e1) \<Rightarrow>
           (case db_first i e1 of
              (None, e2) \<Rightarrow> (jsonResponse (error_json ''not_found'') 404, e2)
            | (Some row, e2) \<Rightarrow>
                (let ttl = getNumberEnv (CACHE_TTL_SECONDS e2) 60;
                     e3 = kv_put (now_s a) cacheKey (memo_json row) ttl e2
                 in (jsonResponse (memo_json row) 200, e3)))))"

definition update_memo :: "ambient \<Rightarrow> request \<Rightarrow> nat \<Rightarrow> Env \<Rightarrow> response \<times> Env" where
  "update_memo a r i e =
     (let cacheKey = ''memo:'' @ number_to_string i in
      (case string_field (json_body r) ''content'' of
         None \<Rightarrow> (jsonResponse (error_json ''invalid_payload'') 400, e)
       | Some c \<Rightarrow>
           (let now = now_iso a in
            (case db_update c now i e of
               (changes, e1) \<Rightarrow>
                 if changes = 0 then (jsonResponse (error_json ''not_found'') 404, e1)
                 else (let e2 = kv_delete MEMO_LIST_CACHE_KEY e1;
                           e3 = kv_delete cacheKey e2
                       in (case db_first i e3 of
                             (Some row, e4) \<Rightarrow> (jsonResponse (memo_json row) 200, e4)
                           | (None, e4) \<Rightarrow>
                               (jsonResponse
                                  (memo_json \<lparr>memo_id = i, content = c, created_at = now,
                                              updated_at = now\<rparr>) 200, e4)))))))"

definition delete_memo :: "nat \<Rightarrow> Env \<Rightarrow> response \<times> Env" where
  "delete_memo i e =
     (let cacheKey = ''memo:'' @ number_to_string i in
      (case db_delete i e of
         (changes, e1) \<Rightarrow>
           if changes = 0 then (jsonResponse (error_json ''not_found'') 404, e1)
           else (let e2 = kv_delete MEMO_LIST_CACHE_KEY e1;
                     e3 = kv_delete cacheKey e2
                 in (\<lparr>status = 204, body = None\<rparr>, e3))))"

definition get_clip :: "ambient \<Rightarrow> Env \<Rightarrow> response \<times> Env" where
  "get_clip a e =
     (case kv_get (now_s a) CLIP_CACHE_KEY e of
        (None, e1) \<Rightarrow> (jsonResponse (JObj [(''text'', JNull)]) 200, e1)
      | (Some cached, e1) \<Rightarrow> (jsonResponse cached 200, e1))"

definition save_clip :: "ambient \<Rightarrow> request \<Rightarrow> Env \<Rightarrow> response \<times> Env" where
  "save_clip a r e =
     (case string_field (json_body r) ''text'' of
        None \<Rightarrow> (jsonResponse (error_json ''invalid_payload'') 400, e)
      | Some t \<Rightarrow>
          (let payload = JObj [(''text'', JStr t), (''created_at'', JStr (now_iso a))];
               ttl = getNumberEnv (CLIP_TTL_SECONDS e) (60 * 60 * 24);
               e1 = kv_put (now_s a) CLIP_CACHE_KEY payload ttl e
           in (jsonResponse payload 201, e1)))"

text \<open>The pattern \<open>/^\/api\/memos\/(\d+)$/\<close>; the result is \<open>Number\<close> of the group.\<close>

definition memoIdMatch :: "string \<Rightarrow> nat option" where
  "memoIdMatch p =
     (if starts_with ''/api/memos/'' p \<and> drop 11 p \<noteq> [] \<and> list_all is_digit (drop 11 p)
      then Some (Number_digits (drop 11 p)) else None)"

text \<open>What follows the memo routes: the two clip routes and the final \<open>not_found\<close>.\<close>

definition clip_routes :: "ambient \<Rightarrow> request \<Rightarrow> Env \<Rightarrow> response \<times> Env" where
  "clip_routes a r e =
     (if pathname r = API_PREFIX @ ''/clip'' \<and> req_method r = ''GET'' then get_clip a e
      else if pathname r = API_PREFIX @ ''/clip'' \<and> req_method r = ''POST'' then save_clip a r e
      else (jsonResponse (error_json ''not_found'') 404, e))"

text \<open>The routes behind the authentication check, in the order \<open>fetch\<close> tries them.\<close>

definition routes :: "ambient \<Rightarrow> request \<Rightarrow> Env \<Rightarrow> response \<times> Env" where
  "routes a r e =
     (if pathname r = API_PREFIX @ ''/memos'' \<and> req_method r = ''GET'' then list_memos a e
      else if pathname r = API_PREFIX @ ''/memos'' \<and> req_method r = ''POST'' then create_memo a r e
      else (case memoIdMatch (pathname r) of
              None \<Rightarrow> clip_routes a r e
            | Some i \<Rightarrow>
                if req_method r = ''GET'' then get_memo a i e
                else if req_method r = ''PUT'' then update_memo a r i e
                else if req_method r = ''DELETE'' then delete_memo i e
                else clip_routes a r e))"

text \<open>Whether \<open>fetch\<close> takes the request to \<open>requireAuth\<close>: not a preflight, not a login.\<close>

definition reaches_auth :: "request \<Rightarrow> bool" where
  "reaches_auth r =
     (req_method r \<noteq> ''OPTIONS'' \<and> starts_with API_PREFIX (pathname r) \<and>
      \<not> (pathname r = API_PREFIX @ ''/login'' \<and> req_method r = ''POST''))"

definition fetch :: "ambient \<Rightarrow> request \<Rightarrow> Env \<Rightarrow> response \<times> Env" where
  "fetch a r e =
     (if req_method r = ''OPTIONS'' then (\<lparr>status = 204, body = None\<rparr>, e)
      else if \<not> starts_with API_PREFIX (pathname r) then (\<lparr>status = 404, body = None\<rparr>, e)
      else if pathname r = API_PREFIX @ ''/login'' \<and> req_method r = ''POST'' then login a r e
      else (case requireAuth a r e of
              (Inl resp, e1) \<Rightarrow> (resp, e1)
            | (Inr tok, e1) \<Rightarrow> routes a r e1))"

text \<open>
  A request is authenticated when \<open>fetch\<close> takes it to \<open>requireAuth\<close> and
  \<open>requireAuth\<close> lets it through: its bearer token is a live key of the KV namespace.
\<close>

definition authenticated :: "ambient \<Rightarrow> request \<Rightarrow> Env \<Rightarrow> bool" where
  "authenticated a r e =
     (reaches_auth r \<and>
      (case fst (requireAuth a r e) of Inl resp \<Rightarrow> False | Inr tok \<Rightarrow> True))"

text \<open>The endpoints \<open>fetch\<close> defines, and the field each one requires in its body.\<close>

definition defined_endpoint :: "request \<Rightarrow> bool" where
  "defined_endpoint r =
     ((pathname r = ''/api/login'' \<and> req_method r = ''POST'') \<or>
      (pathname r = ''/api/memos'' \<and> (req_method r = ''GET'' \<or> req_method r = ''POST'')) \<or>
      (memoIdMatch (pathname r) \<noteq> None \<and>
         (req_method r = ''GET'' \<or> req_method r = ''PUT'' \<or> req_method r = ''DELETE'')) \<or>
      (pathname r = ''/api/clip'' \<and> (req_method r = ''GET'' \<or> req_method r = ''POST'')))"

definition required_field :: "request \<Rightarrow> string option" where
  "required_field r =
     (if pathname r = ''/api/login'' \<and> req_method r = ''POST'' then Some ''password''
      else if pathname r = ''/api/memos'' \<and> req_method r = ''POST'' then Some ''content''
      else if memoIdMatch (pathname r) \<noteq> None \<and> req_method r = ''PUT'' then Some ''content''
      else if pathname r = ''/api/clip'' \<and> req_method r = ''POST'' then Some ''text''
      else None)"

text \<open>The requests that write a memo: create, update and delete.\<close>

definition memo_write :: "request \<Rightarrow> bool" where
  "memo_write r =
     ((pathname r = ''/api/memos'' \<and> req_method r = ''POST'') \<or>
      (memoIdMatch (pathname r) \<noteq> None \<and> (req_method r = ''PUT'' \<or> req_method r = ''DELETE'')))"

text \<open>A sequence of requests, each handled to its end before the next one.\<close>

definition serve :: "Env \<Rightarrow> (ambient \<times> request) list \<Rightarrow> Env" where
  "serve e reqs = foldl (\<lambda>e1 (a, r). snd (fetch a r e1)) e reqs"

text \<open>What a list read answers from the table, and a list cache that agrees with it.\<close>

definition listing :: "Env \<Rightarrow> json" where
  "listing e = JArr (map memo_json (order_by_updated_at_desc (rows (DB e))))"

definition list_cache_coherent :: "Env \<Rightarrow> bool" where
  "list_cache_coherent e =
     (case MEMO_KV e MEMO_LIST_CACHE_KEY of
        None \<Rightarrow> True
      | Some entry \<Rightarrow> fst entry = listing e)"

text \<open>A sample environment (one memo, one live session), clock and request.\<close>

definition ex_env :: Env where
  "ex_env =
     \<lparr>DB = \<lparr>rows = [\<lparr>memo_id = 1, content = ''a'',
                      created_at = ''2026-01-01T00:00:00.000Z'',
                      updated_at = ''2026-01-01T00:00:00.000Z''\<rparr>], seq = 1\<rparr>,
      MEMO_KV = [''auth:token:tok'' \<mapsto> (JNum 1, 1000)],
      APP_PASSWORD = ''secret'', SESSION_TTL_SECONDS = None, CLIP_TTL_SECONDS = None,
      CACHE_TTL_SECONDS = None, ops = []\<rparr>"

definition ex_clock :: ambient where
  "ex_clock =
     \<lparr>now_s = 10, now_iso = ''2026-01-01T00:00:10.000Z'', random_uuid = ''uuid-1''\<rparr>"

definition ex_request :: "string \<Rightarrow> string \<Rightarrow> json option \<Rightarrow> request" where
  "ex_request m p b =
     \<lparr>req_method = m, pathname = p, authorization = Some ''Bearer tok'', json_body = b\<rparr>"

section \<open>The client editor\<close>

text \<open>
  The script of \<open>App.vue\<close> is a set of reactive variables and of functions run one at a
  time by the event loop: a user action, a timer or the completion of a request runs to
  its next \<open>await\<close> before anything else happens. The model is a record of the
  variables and a step function with one event per action, timer and completion. An
  \<open>async\<close> function is split at its \<open>await\<close>: what runs before it is the start, the
  request then stays in the list of requests in flight, and the rest runs when the
  completion event delivers the outcome. The variables that only hold texts shown to the
  user (\<open>authError\<close>, \<open>editorStatus\<close>, \<open>autosaveStatus\<close>, \<open>clipStatus\<close>, \<open>clipMeta\<close>),
  \<open>isLoading\<close>, \<open>isBooting\<close>, \<open>blockingCount\<close>, \<open>searchQuery\<close> and \<open>loginPassword\<close>
  decide nothing below and are left out.
\<close>

definition AUTOSAVE_DELAY_MS :: nat where
  "AUTOSAVE_DELAY_MS = 5000"

text \<open>
  \<open>String.prototype.trim\<close> on the code units a \<open>char\<close> can hold: tab, line feed,
  vertical tab, form feed, carriage return, space and no-break space.
\<close>

definition is_space :: "char \<Rightarrow> bool" where
  "is_space c = ((of_char c :: nat) \<in> {9, 10, 11, 12, 13, 32, 160})"

definition trim :: "string \<Rightarrow> string" where
  "trim s = rev (dropWhile is_space (rev (dropWhile is_space s)))"

text \<open>
  The outcome of \<open>apiFetch\<close> followed by \<open>response.json()\<close>: the parsed body, a
  response with status 401, or anything else that throws (another status that is not ok,
  a network error, the timeout, a body that is not JSON).
\<close>

datatype 'a api_result = Success 'a | Status401 | Failure

record clip_payload =
  payload_text :: "string option"
  payload_created_at :: "string option"

text \<open>
  A call of \<open>saveMemo\<close> waiting for its response: the trimmed content it sent, the
  identifier of the \<open>PUT\<close> (\<open>None\<close> for the \<open>POST\<close> of a new memo), its options and
  the bearer token of the request (empty when none was sent).
\<close>

record memo_save =
  sent_content :: string
  sent_id :: "nat option"
  silent :: bool
  fromAutosave :: bool
  memo_bearer :: string

text \<open>The three places that post to \<open>/api/clip\<close>.\<close>

datatype clip_writer = SaveClip | ClipAutosave | ClearClip

record clip_post =
  writer :: clip_writer
  sent_text :: string
  clip_bearer :: string

text \<open>
  A timer variable holds the delay of the timeout that is waiting to fire, \<open>None\<close>
  when none is (never set, or fired: clearing a handle that fired does nothing).
\<close>

record client =
  token :: string
  isSaving :: bool
  memos :: "memo_row list"
  selectedId :: "nat option"
  editorContent :: string
  editorDirty :: bool
  memoLastSavedContent :: string
  memoAutosavePending :: bool
  autosaveTimer :: "nat option"
  clipText :: string
  clipSaving :: bool
  clipClearing :: bool
  clipAutosaveTimer :: "nat option"
  clipLastSavedText :: string
  clipAutosavePending :: bool
  memo_saves :: "memo_save list"
  clip_posts :: "clip_post list"

definition init_client :: "string \<Rightarrow> client" where
  "init_client stored =
     \<lparr>token = stored, isSaving = False, memos = [], selectedId = None, editorContent = [],
      editorDirty = False, memoLastSavedContent = [], memoAutosavePending = False,
      autosaveTimer = None, clipText = [], clipSaving = False, clipClearing = False,
      clipAutosaveTimer = None, clipLastSavedText = [], clipAutosavePending = False,
      memo_saves = [], clip_posts = []\<rparr>"

definition setToken :: "string \<Rightarrow> client \<Rightarrow> client" where
  "setToken v s = s\<lparr>token := v\<rparr>"

text \<open>What \<open>apiFetch\<close> does to the state when the response arrives.\<close>

definition apiFetch_outcome :: "'a api_result \<Rightarrow> client \<Rightarrow> client" where
  "apiFetch_outcome res s = (case res of Status401 \<Rightarrow> setToken [] s | _ \<Rightarrow> s)"

definition remove_nth :: "nat \<Rightarrow> 'a list \<Rightarrow> 'a list" where
  "remove_nth i xs = take i xs @ drop (Suc i) xs"

definition signOut :: "client \<Rightarrow> client" where
  "signOut s =
     (setToken [] s)\<lparr>memos := [], selectedId := None, editorContent := [],
       editorDirty := False, memoLastSavedContent := [], clipText := [],
       clipLastSavedText := []\<rparr>"

definition selectMemo :: "memo_row \<Rightarrow> client \<Rightarrow> client" where
  "selectMemo memo s =
     s\<lparr>selectedId := Some (memo_id memo), editorContent := content memo,
       editorDirty := False, memoLastSavedContent := content memo\<rparr>"

definition startNewMemo :: "client \<Rightarrow> client" where
  "startNewMemo s =
     s\<lparr>selectedId := None, editorContent := [], editorDirty := False,
       memoLastSavedContent := []\<rparr>"

text \<open>\<open>if (selectedId.value)\<close>: \<open>null\<close> and \<open>0\<close> are falsy.\<close>

definition put_id :: "nat option \<Rightarrow> nat option" where
  "put_id sel = (case sel of None \<Rightarrow> None | Some i \<Rightarrow> if i = 0 then None else Some i)"

subsection \<open>The memo draft\<close>

definition scheduleAutosave :: "client \<Rightarrow> client" where
  "scheduleAutosave s =
     (if token s = [] then s
      else if isSaving s then s\<lparr>memoAutosavePending := True\<rparr>
      else s\<lparr>autosaveTimer := Some AUTOSAVE_DELAY_MS\<rparr>)"

text \<open>The \<open>finally\<close> block of \<open>saveMemo\<close>.\<close>

definition saveMemo_finally :: "client \<Rightarrow> client" where
  "saveMemo_finally s =
     (let s1 = s\<lparr>isSaving := False\<rparr>
      in if memoAutosavePending s1
         then (let s2 = s1\<lparr>memoAutosavePending := False\<rparr>
               in if editorDirty s2 then scheduleAutosave s2 else s2)
         else s1)"

text \<open>\<open>saveMemo(options)\<close> up to its \<open>await apiFetch(...)\<close>.\<close>

definition saveMemo :: "bool \<Rightarrow> bool \<Rightarrow> client \<Rightarrow> client" where
  "saveMemo sil auto s =
     (if isSaving s then s
      else (let c = trim (editorContent s)
            in if c = [] then s
               else if auto \<and> c = memoLastSavedContent s then s
               else (let s1 = s\<lparr>isSaving := True\<rparr>
                     in (case put_id (selectedId s1) of
                           Some i \<Rightarrow>
                             s1\<lparr>memo_saves := memo_saves s1 @
                                  [\<lparr>sent_content = c, sent_id = Some i, silent = sil,
                                    fromAutosave = auto, memo_bearer = token s1\<rparr>]\<rparr>
                         | None \<Rightarrow>
                             if auto \<and> length c < 3 then saveMemo_finally s1
                             else s1\<lparr>memo_saves := memo_saves s1 @
                                    [\<lparr>sent_content = c, sent_id = None, silent = sil,
                                      fromAutosave = auto, memo_bearer = token s1\<rparr>]\<rparr>))))"

text \<open>The rest of \<open>saveMemo\<close>, from the response to the end of \<open>finally\<close>.\<close>

definition saveMemo_resume :: "memo_save \<Rightarrow> memo_row api_result \<Rightarrow> client \<Rightarrow> client" where
  "saveMemo_resume q res s =
     (let s0 = apiFetch_outcome res s
      in saveMemo_finally
           (case res of
              Success data \<Rightarrow>
                (let s1 = (case sent_id q of
                             Some i \<Rightarrow>
                               s0\<lparr>memos := map (\<lambda>memo. if memo_id memo = memo_id data
                                                      then data else memo) (memos s0)\<rparr>
                           | None \<Rightarrow> s0\<lparr>memos := data # memos s0\<rparr>)
                 in (selectMemo data s1)\<lparr>editorDirty := False,
                      memoLastSavedContent := sent_content q\<rparr>)
            | _ \<Rightarrow> s0))"

text \<open>The callback of the timeout set by \<open>scheduleAutosave\<close>.\<close>

definition autosave_fired :: "client \<Rightarrow> client" where
  "autosave_fired s =
     (case autosaveTimer s of
        None \<Rightarrow> s
      | Some d \<Rightarrow>
          (let s1 = s\<lparr>autosaveTimer := None\<rparr>
           in if \<not> editorDirty s1 then s1 else saveMemo True True s1))"

definition markDirty :: "client \<Rightarrow> client" where
  "markDirty s = scheduleAutosave (s\<lparr>editorDirty := True\<rparr>)"

text \<open>The rest of \<open>loadMemos\<close> and of \<open>deleteMemo\<close>, from the response on.\<close>

definition loadMemos_resume :: "memo_row list api_result \<Rightarrow> client \<Rightarrow> client" where
  "loadMemos_resume res s =
     (let s0 = apiFetch_outcome res s
      in (case res of
            Success data \<Rightarrow>
              (let s1 = s0\<lparr>memos := data\<rparr>
               in (case memos s1 of
                     [] \<Rightarrow> s1
                   | first # rest \<Rightarrow>
                       if put_id (selectedId s1) = None then selectMemo first s1 else s1))
          | _ \<Rightarrow> s0))"

definition deleteMemo_resume :: "unit api_result \<Rightarrow> client \<Rightarrow> client" where
  "deleteMemo_resume res s =
     (let s0 = apiFetch_outcome res s
      in (case res of
            Success u \<Rightarrow>
              (let s1 = s0\<lparr>memos := filter (\<lambda>memo. Some (memo_id memo) \<noteq> selectedId s0)
                                      (memos s0)\<rparr>
               in (case memos s1 of
                     [] \<Rightarrow> startNewMemo s1
                   | first # rest \<Rightarrow> selectMemo first s1))
          | _ \<Rightarrow> s0))"

subsection \<open>The clip draft\<close>

definition scheduleClipAutosave :: "client \<Rightarrow> client" where
  "scheduleClipAutosave s =
     (if token s = [] then s
      else if clipSaving s then s\<lparr>clipAutosavePending := True\<rparr>
      else s\<lparr>clipAutosaveTimer := Some AUTOSAVE_DELAY_MS\<rparr>)"

definition saveClip :: "client \<Rightarrow> client" where
  "saveClip s =
     (if clipSaving s then s
      else s\<lparr>clipSaving := True,
             clip_posts := clip_posts s @
               [\<lparr>writer = SaveClip, sent_text = clipText s, clip_bearer = token s\<rparr>]\<rparr>)"

definition saveClip_resume :: "clip_payload api_result \<Rightarrow> client \<Rightarrow> client" where
  "saveClip_resume res s =
     (let s0 = apiFetch_outcome res s;
          s1 = (case res of
                  Success data \<Rightarrow> s0\<lparr>clipLastSavedText := clipText s0\<rparr>
                | _ \<Rightarrow> s0);
          s2 = s1\<lparr>clipSaving := False\<rparr>
      in if clipAutosavePending s2
         then scheduleClipAutosave (s2\<lparr>clipAutosavePending := False\<rparr>)
         else s2)"

text \<open>The callback of the timeout set by \<open>scheduleClipAutosave\<close>, and its rest.\<close>

definition clip_autosave_fired :: "client \<Rightarrow> client" where
  "clip_autosave_fired s =
     (case clipAutosaveTimer s of
        None \<Rightarrow> s
      | Some d \<Rightarrow>
          (let s1 = s\<lparr>clipAutosaveTimer := None\<rparr>
           in if clipSaving s1 then s1
              else if clipText s1 = clipLastSavedText s1 then s1
              else s1\<lparr>clip_posts := clip_posts s1 @
                       [\<lparr>writer = ClipAutosave, sent_text = clipText s1,
                         clip_bearer = token s1\<rparr>]\<rparr>))"

definition clip_autosave_resume :: "clip_payload api_result \<Rightarrow> client \<Rightarrow> client" where
  "clip_autosave_resume res s =
     (let s0 = apiFetch_outcome res s
      in (case res of
            Success data \<Rightarrow> s0\<lparr>clipLastSavedText := clipText s0\<rparr>
          | _ \<Rightarrow> s0))"

definition clearClip :: "client \<Rightarrow> client" where
  "clearClip s =
     (if clipClearing s then s
      else s\<lparr>clipClearing := True,
             clip_posts := clip_posts s @
               [\<lparr>writer = ClearClip, sent_text = [], clip_bearer = token s\<rparr>]\<rparr>)"

definition text_or_empty :: "clip_payload \<Rightarrow> string" where
  "text_or_empty data = (case payload_text data of None \<Rightarrow> [] | Some t \<Rightarrow> t)"

definition clearClip_resume :: "clip_payload api_result \<Rightarrow> client \<Rightarrow> client" where
  "clearClip_resume res s =
     (let s0 = apiFetch_outcome res s;
          s1 = (case res of
                  Success data \<Rightarrow>
                    s0\<lparr>clipText := text_or_empty data, clipLastSavedText := text_or_empty data\<rparr>
                | _ \<Rightarrow> s0)
      in s1\<lparr>clipClearing := False\<rparr>)"

definition loadClip_resume :: "clip_payload api_result \<Rightarrow> client \<Rightarrow> client" where
  "loadClip_resume res s =
     (let s0 = apiFetch_outcome res s
      in (case res of
            Success data \<Rightarrow>
              s0\<lparr>clipText := text_or_empty data, clipLastSavedText := text_or_empty data\<rparr>
          | _ \<Rightarrow> s0))"

definition clip_resume :: "clip_post \<Rightarrow> clip_payload api_result \<Rightarrow> client \<Rightarrow> client" where
  "clip_resume q res s =
     (case writer q of
        SaveClip \<Rightarrow> saveClip_resume res s
      | ClipAutosave \<Rightarrow> clip_autosave_resume res s
      | ClearClip \<Rightarrow> clearClip_resume res s)"

subsection \<open>Events\<close>

text \<open>
  \<open>EditMemo c\<close> and \<open>EditClip c\<close> are an input in a text area (\<open>v-model\<close> stores the new
  content, then \<open>markDirty\<close> or \<open>markClipDirty\<close> runs; a paste has the same effect).
  \<open>MemoSaveDone i res\<close> and \<open>ClipPostDone i res\<close> deliver the outcome of the request at
  position \<open>i\<close> of the requests in flight: responses may come back in any order.
\<close>

datatype event =
    EditMemo string
  | SaveMemoClick
  | AutosaveTimer
  | MemoSaveDone nat "memo_row api_result"
  | SelectMemo memo_row
  | StartNewMemo
  | MemosLoaded "memo_row list api_result"
  | MemoDeleted "unit api_result"
  | LoggedIn string
  | SignOut
  | EditClip string
  | SaveClipClick
  | ClearClipClick
  | ClipAutosaveTimer
  | ClipPostDone nat "clip_payload api_result"
  | ClipLoaded "clip_payload api_result"

fun step :: "client \<Rightarrow> event \<Rightarrow> client" where
  "step s (EditMemo c) = markDirty (s\<lparr>editorContent := c\<rparr>)"
| "step s SaveMemoClick = saveMemo False False s"
| "step s AutosaveTimer = autosave_fired s"
| "step s (MemoSaveDone i res) =
     (if i < length (memo_saves s)
      then saveMemo_resume (memo_saves s ! i) res
             (s\<lparr>memo_saves := remove_nth i (memo_saves s)\<rparr>)
      else s)"
| "step s (SelectMemo memo) = selectMemo memo s"
| "step s StartNewMemo = startNewMemo s"
| "step s (MemosLoaded res) = loadMemos_resume res s"
| "step s (MemoDeleted res) = deleteMemo_resume res s"
| "step s (LoggedIn tok) = (if tok = [] then s else setToken tok s)"
| "step s SignOut = signOut s"
| "step s (EditClip c) = scheduleClipAutosave (s\<lparr>clipText := c\<rparr>)"
| "step s SaveClipClick = saveClip s"
| "step s ClearClipClick = clearClip s"
| "step s ClipAutosaveTimer = clip_autosave_fired s"
| "step s (ClipPostDone i res) =
     (if i < length (clip_posts s)
      then clip_resume (clip_posts s ! i) res
             (s\<lparr>clip_posts := remove_nth i (clip_posts s)\<rparr>)
      else s)"
| "step s (ClipLoaded res) = loadClip_resume res s"

definition run :: "client \<Rightarrow> event list \<Rightarrow> client" where
  "run s evs = foldl step s evs"

text \<open>The number of requests of one writer among the clip requests in flight.\<close>

definition in_flight :: "clip_writer \<Rightarrow> client \<Rightarrow> nat" where
  "in_flight w s = length (filter (\<lambda>q. writer q = w) (clip_posts s))"

subsection \<open>Single flight and follow-up saves\<close>

text \<open>
  The flag of a guarded write path is set exactly while its request is in flight, and at
  most one such request is.
\<close>

definition memo_single_flight :: "client \<Rightarrow> bool" where
  "memo_single_flight s = ((isSaving s \<longleftrightarrow> memo_saves s \<noteq> []) \<and> length (memo_saves s) \<le> 1)"

definition clip_single_flight :: "client \<Rightarrow> bool" where
  "clip_single_flight s =
     ((clipSaving s \<longleftrightarrow> 0 < in_flight SaveClip s) \<and> in_flight SaveClip s \<le> 1 \<and>
      (clipClearing s \<longleftrightarrow> 0 < in_flight ClearClip s) \<and> in_flight ClearClip s \<le> 1)"

definition memo_pending_inv :: "client \<Rightarrow> bool" where
  "memo_pending_inv s = (memo_single_flight s \<and> (memoAutosavePending s \<longrightarrow> isSaving s))"

definition clip_pending_inv :: "client \<Rightarrow> bool" where
  "clip_pending_inv s = (clip_single_flight s \<and> (clipAutosavePending s \<longrightarrow> clipSaving s))"

text \<open>
  The events of a draft that need no user: its timer firing and its requests completing.
  \<open>memo_sends s evs\<close> counts the save requests sent while \<open>evs\<close> run from \<open>s\<close> (a step
  sends at most one request and then the list of requests in flight grows).
\<close>

fun memo_quiet :: "event \<Rightarrow> bool" where
  "memo_quiet AutosaveTimer = True"
| "memo_quiet (MemoSaveDone i res) = True"
| "memo_quiet ev = False"

fun clip_quiet :: "event \<Rightarrow> bool" where
  "clip_quiet ClipAutosaveTimer = True"
| "clip_quiet (ClipPostDone i res) = True"
| "clip_quiet ev = False"

fun memo_sends :: "client \<Rightarrow> event list \<Rightarrow> nat" where
  "memo_sends s [] = 0"
| "memo_sends s (ev # evs) =
     (if length (memo_saves s) < length (memo_saves (step s ev)) then 1 else 0) +
     memo_sends (step s ev) evs"

fun clip_sends :: "client \<Rightarrow> event list \<Rightarrow> nat" where
  "clip_sends s [] = 0"
| "clip_sends s (ev # evs) =
     (if length (clip_posts s) < length (clip_posts (step s ev)) then 1 else 0) +
     clip_sends (step s ev) evs"

text \<open>What a draft can still send without the user: a pending flag or a waiting timer.\<close>

definition memo_budget :: "client \<Rightarrow> nat" where
  "memo_budget s = (if memoAutosavePending s \<or> autosaveTimer s \<noteq> None then 1 else 0)"

definition clip_budget :: "client \<Rightarrow> nat" where
  "clip_budget s = (if clipAutosavePending s \<or> clipAutosaveTimer s \<noteq> None then 1 else 0)"

text \<open>Sample rows, states and runs of the client.\<close>

definition ex_memo :: "string \<Rightarrow> memo_row" where
  "ex_memo c = \<lparr>memo_id = 1, content = c, created_at = ''2026-01-01T00:00:00.000Z'',
                updated_at = ''2026-01-01T00:00:00.000Z''\<rparr>"

definition ex_saving :: client where
  "ex_saving = run (init_client ''t'') [EditMemo ''abc'', SaveMemoClick]"

definition ex_editing :: "event list" where
  "ex_editing =
     [EditMemo ''abc'', SaveMemoClick, EditMemo ''abcd'', EditMemo ''abcde'',
      EditClip ''x'', SaveClipClick, EditClip ''xy'', EditClip ''xyz'']"


section \<open>Properties of the handler\<close>

subsection \<open>Evaluation and auxiliary facts\<close>

lemmas ex_eval = ex_env_def ex_clock_def ex_request_def fetch_def routes_def clip_routes_def
  reaches_auth_def authenticated_def requireAuth_def getBearerToken_def memoIdMatch_def
  starts_with_def API_PREFIX_def MEMO_LIST_CACHE_KEY_def CLIP_CACHE_KEY_def jsonResponse_def
  error_json_def string_field_def falsy_def opt_prop_def getNumberEnv_def is_digit_def
  Number_digits_def kv_get_def kv_put_def kv_delete_def Let_def

lemmas all_eval = ex_eval list_memos_def create_memo_def get_memo_def update_memo_def
  delete_memo_def get_clip_def save_clip_def login_def db_all_def db_first_def db_insert_def
  db_update_def db_delete_def memo_json_def order_by_updated_at_desc_def listing_def serve_def
  memo_write_def

lemma string_field_Some_iff:
  "string_field b k = Some s \<longleftrightarrow> (\<exists>v. b = Some v \<and> truthy v \<and> get_prop v k = Some (JStr s))"
  by (auto simp: string_field_def falsy_def opt_prop_def split: option.splits json.splits)

lemma authenticated_routes:
  assumes "authenticated a r e"
  shows "\<exists>tok. getBearerToken r = Some tok \<and>
           fetch a r e = routes a r (e\<lparr>ops := ops e @ [KvGet (''auth:token:'' @ tok)]\<rparr>)"
  using assms
  by (auto simp: authenticated_def reaches_auth_def fetch_def requireAuth_def kv_get_def
      split: option.splits prod.splits if_splits sum.splits)

lemma unauthenticated_routes:
  assumes "reaches_auth r" "\<not> authenticated a r e"
  shows "fst (fetch a r e) = jsonResponse (error_json ''unauthorized'') 401"
    and "DB (snd (fetch a r e)) = DB e" and "MEMO_KV (snd (fetch a r e)) = MEMO_KV e"
  using assms
  by (auto simp: authenticated_def reaches_auth_def fetch_def requireAuth_def kv_get_def
      split: option.splits prod.splits if_splits sum.splits)

lemma changes_zero_iff: "filter P xs = [] \<longleftrightarrow> find P xs = None"
  by (induction xs) auto

lemma map_no_match: "find (\<lambda>r. memo_id r = i) xs = None \<Longrightarrow> map (\<lambda>r. if memo_id r = i then f r else r) xs = xs"
  by (induction xs) (auto split: if_splits)

lemma filter_no_match: "find (\<lambda>r. memo_id r = i) xs = None \<Longrightarrow> filter (\<lambda>r. memo_id r \<noteq> i) xs = xs"
  by (induction xs) (auto split: if_splits)

lemma find_after_update:
  "find (\<lambda>r. memo_id r = i) xs = Some old \<Longrightarrow>
   find (\<lambda>r. memo_id r = i) (map (\<lambda>r. if memo_id r = i then r\<lparr>content := c, updated_at := u\<rparr> else r) xs)
     = Some (old\<lparr>content := c, updated_at := u\<rparr>)"
  by (induction xs) (auto split: if_splits)

lemma update_keeps_ids:
  "map memo_id (map (\<lambda>r. if memo_id r = i then r\<lparr>content := c, updated_at := u\<rparr> else r) xs) = map memo_id xs"
  "map created_at (map (\<lambda>r. if memo_id r = i then r\<lparr>content := c, updated_at := u\<rparr> else r) xs) = map created_at xs"
  by (induction xs) auto

lemma memoIdMatch_not_memos: "memoIdMatch p = Some i \<Longrightarrow> p \<noteq> ''/api/memos''"
  by (auto simp: memoIdMatch_def)

lemma starts_with_append:
  assumes "starts_with (x @ y) s"
  shows "starts_with x s"
proof -
  from assms have "s = (x @ y) @ drop (length (x @ y)) s"
    unfolding starts_with_def by (metis append_take_drop_id)
  then obtain rest where "s = x @ (y @ rest)"
    by (metis append_assoc)
  then show ?thesis
    by (simp add: starts_with_def)
qed

lemma memoIdMatch_prefix:
  assumes "memoIdMatch p = Some i"
  shows "starts_with API_PREFIX p"
proof -
  from assms have "starts_with (''/api'' @ ''/memos/'') p"
    by (simp add: memoIdMatch_def split: if_splits)
  then show ?thesis
    unfolding API_PREFIX_def by (rule starts_with_append)
qed

lemma ex_authenticated:
  "m \<noteq> ''OPTIONS'' \<Longrightarrow> starts_with API_PREFIX p \<Longrightarrow> p \<noteq> ''/api/login'' \<Longrightarrow>
   authenticated ex_clock (ex_request m p b) ex_env"
  by (simp add: authenticated_def reaches_auth_def requireAuth_def getBearerToken_def kv_get_def
      ex_env_def ex_clock_def ex_request_def API_PREFIX_def)

subsection \<open>Creating a memo\<close>

text \<open>
  Claim C3, as the code has it. An authenticated \<open>POST /api/memos\<close> whose body is not a
  truthy value with a string \<open>content\<close> (malformed JSON, no \<open>content\<close>, a \<open>content\<close>
  that is not a string) is answered 400 \<open>invalid_payload\<close> and leaves the table and the
  KV namespace as they were. Every other body, the empty string included, creates the
  memo: its \<open>created_at\<close> and \<open>updated_at\<close> are both the current time, the row is added
  to the table under a new identifier, the list cache key is deleted and the answer is
  201 with the created record.
\<close>

theorem create_memo_contract:
  assumes "req_method r = ''POST''" and "pathname r = ''/api/memos''" and "authenticated a r e"
  shows "(string_field (json_body r) ''content'' = None \<longrightarrow>
            fst (fetch a r e) = jsonResponse (error_json ''invalid_payload'') 400 \<and>
            DB (snd (fetch a r e)) = DB e \<and> MEMO_KV (snd (fetch a r e)) = MEMO_KV e) \<and>
         (\<forall>c. string_field (json_body r) ''content'' = Some c \<longrightarrow>
            (let memo = \<lparr>memo_id = Suc (seq (DB e)), content = c, created_at = now_iso a,
                         updated_at = now_iso a\<rparr>
             in fst (fetch a r e) = jsonResponse (memo_json memo) 201 \<and>
                rows (DB (snd (fetch a r e))) = rows (DB e) @ [memo] \<and>
                MEMO_KV (snd (fetch a r e)) MEMO_LIST_CACHE_KEY = None))"
proof -
  from authenticated_routes [OF assms(3)] obtain tok where
    f: "fetch a r e = routes a r (e\<lparr>ops := ops e @ [KvGet (''auth:token:'' @ tok)]\<rparr>)"
    by blast
  show ?thesis
    unfolding f using assms(1,2)
    by (simp add: routes_def API_PREFIX_def create_memo_def db_insert_def kv_delete_def Let_def)
qed

text \<open>The theorem of claim C3 at sample requests.\<close>

theorem create_memo_contract_witness:
  "fst (fetch ex_clock (ex_request ''POST'' ''/api/memos'' (Some (JObj [(''content'', JStr ''note'')]))) ex_env)
     = jsonResponse (memo_json \<lparr>memo_id = 2, content = ''note'', created_at = now_iso ex_clock,
                                 updated_at = now_iso ex_clock\<rparr>) 201 \<and>
   fst (fetch ex_clock (ex_request ''POST'' ''/api/memos'' (Some (JObj [(''title'', JStr ''note'')]))) ex_env)
     = jsonResponse (error_json ''invalid_payload'') 400"
proof -
  have auth: "authenticated ex_clock (ex_request ''POST'' ''/api/memos'' b) ex_env" for b
    by (rule ex_authenticated) (simp_all add: starts_with_def API_PREFIX_def)
  have good: "string_field (Some (JObj [(''content'', JStr ''note'')])) ''content'' = Some ''note''"
    and bad: "string_field (Some (JObj [(''title'', JStr ''note'')])) ''content'' = None"
    by (simp_all add: string_field_def falsy_def opt_prop_def)
  have seq: "Suc (seq (DB ex_env)) = 2"
    by (simp add: ex_env_def)
  from create_memo_contract [OF _ _ auth [where b = "Some (JObj [(''content'', JStr ''note'')])"]]
    create_memo_contract [OF _ _ auth [where b = "Some (JObj [(''title'', JStr ''note'')])"]]
  show ?thesis
    by (simp add: ex_request_def good bad seq Let_def)
qed

text \<open>
  Claim C3 as stated fails on the empty string: the guard only tests the type of
  \<open>content\<close>, so \<open>{"content": ""}\<close> is not rejected; the memo is created and the answer
  is 201.
\<close>

theorem create_memo_empty_content:
  "authenticated ex_clock (ex_request ''POST'' ''/api/memos'' (Some (JObj [(''content'', JStr '''')]))) ex_env \<and>
   fst (fetch ex_clock (ex_request ''POST'' ''/api/memos'' (Some (JObj [(''content'', JStr '''')]))) ex_env)
     \<noteq> jsonResponse (error_json ''invalid_payload'') 400 \<and>
   status (fst (fetch ex_clock (ex_request ''POST'' ''/api/memos'' (Some (JObj [(''content'', JStr '''')]))) ex_env)) = 201 \<and>
   map content (rows (DB (snd (fetch ex_clock (ex_request ''POST'' ''/api/memos'' (Some (JObj [(''content'', JStr '''')]))) ex_env)))) = [''a'', '''']"
  by (simp add: all_eval)

subsection \<open>Updating a memo\<close>

text \<open>
  Claim C5. An authenticated \<open>PUT /api/memos/{id}\<close> with a string \<open>content\<close>: when no
  row has the identifier, the answer is 404 \<open>not_found\<close> and neither the table nor the
  KV namespace changes; otherwise the row gets the new content and the current time as
  \<open>updated_at\<close>, every row keeps its identifier and its \<open>created_at\<close>, the list cache
  key and the cache key of the identifier are deleted, and the answer is 200 with the
  row as it is after the update.
\<close>

theorem update_memo_contract:
  assumes "req_method r = ''PUT''" and "memoIdMatch (pathname r) = Some i"
    and "authenticated a r e" and "string_field (json_body r) ''content'' = Some c"
  shows "(find (\<lambda>m. memo_id m = i) (rows (DB e)) = None \<longrightarrow>
            fst (fetch a r e) = jsonResponse (error_json ''not_found'') 404 \<and>
            DB (snd (fetch a r e)) = DB e \<and> MEMO_KV (snd (fetch a r e)) = MEMO_KV e) \<and>
         (\<forall>old. find (\<lambda>m. memo_id m = i) (rows (DB e)) = Some old \<longrightarrow>
            fst (fetch a r e) =
              jsonResponse (memo_json (old\<lparr>content := c, updated_at := now_iso a\<rparr>)) 200 \<and>
            rows (DB (snd (fetch a r e))) =
              map (\<lambda>m. if memo_id m = i then m\<lparr>content := c, updated_at := now_iso a\<rparr> else m)
                (rows (DB e)) \<and>
            map memo_id (rows (DB (snd (fetch a r e)))) = map memo_id (rows (DB e)) \<and>
            map created_at (rows (DB (snd (fetch a r e)))) = map created_at (rows (DB e)) \<and>
            MEMO_KV (snd (fetch a r e)) MEMO_LIST_CACHE_KEY = None \<and>
            MEMO_KV (snd (fetch a r e)) (''memo:'' @ number_to_string i) = None)"
proof -
  from authenticated_routes [OF assms(3)] obtain tok where
    f: "fetch a r e = routes a r (e\<lparr>ops := ops e @ [KvGet (''auth:token:'' @ tok)]\<rparr>)"
    by blast
  have g: "routes a r e1 = update_memo a r i e1" for e1
    using assms(1,2) by (simp add: routes_def)
  show ?thesis
  proof (cases "find (\<lambda>m. memo_id m = i) (rows (DB e))")
    case None
    then show ?thesis
      unfolding f g
      by (simp add: update_memo_def assms(4) db_update_def Let_def changes_zero_iff map_no_match)
  next
    case (Some old)
    then show ?thesis
      unfolding f g
      by (simp add: update_memo_def assms(4) db_update_def db_first_def kv_delete_def Let_def
          changes_zero_iff find_after_update update_keeps_ids)
  qed
qed

text \<open>The theorem of claim C5 at sample requests.\<close>

theorem update_memo_contract_witness:
  "fst (fetch ex_clock (ex_request ''PUT'' ''/api/memos/1'' (Some (JObj [(''content'', JStr ''b'')]))) ex_env)
     = jsonResponse (memo_json \<lparr>memo_id = 1, content = ''b'',
                                 created_at = ''2026-01-01T00:00:00.000Z'',
                                 updated_at = now_iso ex_clock\<rparr>) 200 \<and>
   fst (fetch ex_clock (ex_request ''PUT'' ''/api/memos/7'' (Some (JObj [(''content'', JStr ''b'')]))) ex_env)
     = jsonResponse (error_json ''not_found'') 404"
proof -
  have auth: "authenticated ex_clock (ex_request ''PUT'' p b) ex_env"
    if "starts_with API_PREFIX p" "p \<noteq> ''/api/login''" for p b
    using that by (intro ex_authenticated) simp_all
  have m1: "memoIdMatch ''/api/memos/1'' = Some 1" and m7: "memoIdMatch ''/api/memos/7'' = Some 7"
    by (simp_all add: memoIdMatch_def starts_with_def is_digit_def Number_digits_def)
  have sf: "string_field (Some (JObj [(''content'', JStr ''b'')])) ''content'' = Some ''b''"
    by (simp add: string_field_def falsy_def opt_prop_def)
  have a1: "authenticated ex_clock (ex_request ''PUT'' ''/api/memos/1'' b) ex_env"
    and a7: "authenticated ex_clock (ex_request ''PUT'' ''/api/memos/7'' b) ex_env" for b
    by (rule auth; simp add: starts_with_def API_PREFIX_def)+
  from update_memo_contract [where i = 1 and c = "''b''", OF _ _ a1 [where b = "Some (JObj [(''content'', JStr ''b'')])"]]
    update_memo_contract [where i = 7 and c = "''b''", OF _ _ a7 [where b = "Some (JObj [(''content'', JStr ''b'')])"]]
  show ?thesis
    by (simp add: ex_request_def m1 m7 sf ex_env_def)
qed

subsection \<open>The clip round trip\<close>

text \<open>
  Claim C8. For any string \<open>t\<close>, the empty one included: after an authenticated
  \<open>POST /api/clip\<close> with text \<open>t\<close>, an authenticated \<open>GET /api/clip\<close> that arrives before
  the time-to-live has run out answers 200 with \<open>{text: t, created_at: s}\<close>, \<open>s\<close> being
  the time of the save. When the clip key is absent or expired the read answers
  \<open>{text: null}\<close>, which differs from every saved payload.
\<close>

theorem clip_round_trip:
  assumes "req_method r2 = ''GET''" and "pathname r2 = ''/api/clip''"
  shows "(req_method r1 = ''POST'' \<and> pathname r1 = ''/api/clip'' \<and> authenticated a1 r1 e \<and>
          string_field (json_body r1) ''text'' = Some t \<and>
          authenticated a2 r2 (snd (fetch a1 r1 e)) \<and>
          now_s a2 < now_s a1 + getNumberEnv (CLIP_TTL_SECONDS e) (60 * 60 * 24) \<longrightarrow>
            fst (fetch a2 r2 (snd (fetch a1 r1 e))) =
              jsonResponse (JObj [(''text'', JStr t), (''created_at'', JStr (now_iso a1))]) 200) \<and>
         (authenticated a2 r2 e \<and> fst (kv_get (now_s a2) CLIP_CACHE_KEY e) = None \<longrightarrow>
            fst (fetch a2 r2 e) = jsonResponse (JObj [(''text'', JNull)]) 200) \<and>
         jsonResponse (JObj [(''text'', JStr t), (''created_at'', JStr (now_iso a1))]) 200
           \<noteq> jsonResponse (JObj [(''text'', JNull)]) 200"
proof -
  have read: "routes a2 r2 e1 = get_clip a2 e1" for e1
    using assms by (simp add: routes_def clip_routes_def API_PREFIX_def memoIdMatch_def starts_with_def)
  have saved: "fst (fetch a2 r2 (snd (fetch a1 r1 e))) =
      jsonResponse (JObj [(''text'', JStr t), (''created_at'', JStr (now_iso a1))]) 200"
    if w: "req_method r1 = ''POST''" "pathname r1 = ''/api/clip''" "authenticated a1 r1 e"
      "string_field (json_body r1) ''text'' = Some t"
      and g: "authenticated a2 r2 (snd (fetch a1 r1 e))"
      and live: "now_s a2 < now_s a1 + getNumberEnv (CLIP_TTL_SECONDS e) (60 * 60 * 24)"
  proof -
    from authenticated_routes [OF w(3)] obtain tok where
      f1: "fetch a1 r1 e = routes a1 r1 (e\<lparr>ops := ops e @ [KvGet (''auth:token:'' @ tok)]\<rparr>)"
      by blast
    have wr: "routes a1 r1 e1 = save_clip a1 r1 e1" for e1
      using w(1,2) by (simp add: routes_def clip_routes_def API_PREFIX_def memoIdMatch_def starts_with_def)
    have kv: "MEMO_KV (snd (fetch a1 r1 e)) CLIP_CACHE_KEY =
        Some (JObj [(''text'', JStr t), (''created_at'', JStr (now_iso a1))],
              now_s a1 + getNumberEnv (CLIP_TTL_SECONDS e) (60 * 60 * 24))"
      unfolding f1 wr by (simp add: save_clip_def w(4) kv_put_def Let_def)
    from authenticated_routes [OF g] obtain tok2 where
      f2: "fetch a2 r2 (snd (fetch a1 r1 e)) =
             routes a2 r2 ((snd (fetch a1 r1 e))\<lparr>ops := ops (snd (fetch a1 r1 e)) @ [KvGet (''auth:token:'' @ tok2)]\<rparr>)"
      by blast
    show ?thesis
      unfolding f2 read using kv live by (simp add: get_clip_def kv_get_def)
  qed
  have absent: "fst (fetch a2 r2 e) = jsonResponse (JObj [(''text'', JNull)]) 200"
    if g: "authenticated a2 r2 e" and n: "fst (kv_get (now_s a2) CLIP_CACHE_KEY e) = None"
  proof -
    from authenticated_routes [OF g] obtain tok2 where
      f2: "fetch a2 r2 e = routes a2 r2 (e\<lparr>ops := ops e @ [KvGet (''auth:token:'' @ tok2)]\<rparr>)"
      by blast
    show ?thesis
      unfolding f2 read using n by (simp add: get_clip_def kv_get_def split: option.splits)
  qed
  show ?thesis
    using saved absent by (simp add: jsonResponse_def)
qed

text \<open>The theorem of claim C8 at sample requests.\<close>

theorem clip_round_trip_witness:
  "fst (fetch ex_clock (ex_request ''GET'' ''/api/clip'' None)
          (snd (fetch ex_clock (ex_request ''POST'' ''/api/clip'' (Some (JObj [(''text'', JStr '''')])))
                  ex_env)))
     = jsonResponse (JObj [(''text'', JStr ''''), (''created_at'', JStr ''2026-01-01T00:00:10.000Z'')]) 200 \<and>
   fst (fetch ex_clock (ex_request ''GET'' ''/api/clip'' None) ex_env)
     = jsonResponse (JObj [(''text'', JNull)]) 200"
proof -
  let ?w = "ex_request ''POST'' ''/api/clip'' (Some (JObj [(''text'', JStr '''')]))"
  let ?r = "ex_request ''GET'' ''/api/clip'' None"
  have a1: "authenticated ex_clock ?w ex_env" and a0: "authenticated ex_clock ?r ex_env"
    by (simp_all add: ex_eval)
  have a2: "authenticated ex_clock ?r (snd (fetch ex_clock ?w ex_env))"
    by (simp add: ex_eval save_clip_def)
  have t: "string_field (json_body ?w) ''text'' = Some ''''"
    by (simp add: ex_eval)
  have ttl: "now_s ex_clock < now_s ex_clock + getNumberEnv (CLIP_TTL_SECONDS ex_env) (60 * 60 * 24)"
    by (simp add: ex_eval)
  have n: "fst (kv_get (now_s ex_clock) CLIP_CACHE_KEY ex_env) = None"
    by (simp add: ex_eval)
  have m: "req_method ?r = ''GET''" "pathname ?r = ''/api/clip''" "req_method ?w = ''POST''"
    "pathname ?w = ''/api/clip''" "now_iso ex_clock = ''2026-01-01T00:00:10.000Z''"
    by (simp_all add: ex_eval)
  from clip_round_trip [OF m(1,2), of ?w ex_clock ex_env "''''" ex_clock]
  show ?thesis
    using a1 a0 a2 t ttl n m(3,4,5) by simp
qed

subsection \<open>Identifiers that are not numbers\<close>

text \<open>
  Claim C10. An authenticated request for \<open>/api/memos/{id}\<close> where \<open>{id}\<close> is not a
  non-empty string of decimal digits is answered 404 \<open>not_found\<close>; the table and the KV
  namespace are unchanged, and the only operation on a store is the lookup of the session
  token by \<open>requireAuth\<close>: no memo is read, written or deleted and no cache key is
  touched.
\<close>

theorem non_numeric_memo_id:
  assumes "authenticated a r e" and "pathname r = ''/api/memos/'' @ x"
    and "\<not> (x \<noteq> [] \<and> list_all is_digit x)"
  shows "fst (fetch a r e) = jsonResponse (error_json ''not_found'') 404 \<and>
         DB (snd (fetch a r e)) = DB e \<and> MEMO_KV (snd (fetch a r e)) = MEMO_KV e \<and>
         (\<exists>tok. getBearerToken r = Some tok \<and>
                ops (snd (fetch a r e)) = ops e @ [KvGet (''auth:token:'' @ tok)])"
proof -
  from authenticated_routes [OF assms(1)] obtain tok where
    t: "getBearerToken r = Some tok" and
    f: "fetch a r e = routes a r (e\<lparr>ops := ops e @ [KvGet (''auth:token:'' @ tok)]\<rparr>)"
    by blast
  have m: "memoIdMatch (pathname r) = None"
    using assms(2,3) by (auto simp: memoIdMatch_def starts_with_def)
  have "routes a r e1 = (jsonResponse (error_json ''not_found'') 404, e1)" for e1
    using assms(2) m by (simp add: routes_def clip_routes_def API_PREFIX_def)
  with f t show ?thesis
    by simp
qed

text \<open>The theorem of claim C10 at sample requests.\<close>

theorem non_numeric_memo_id_witness:
  "fst (fetch ex_clock (ex_request ''GET'' ''/api/memos/abc'' None) ex_env)
     = jsonResponse (error_json ''not_found'') 404 \<and>
   ops (snd (fetch ex_clock (ex_request ''DELETE'' ''/api/memos/-1'' None) ex_env))
     = [KvGet ''auth:token:tok'']"
proof -
  have a: "authenticated ex_clock (ex_request ''GET'' ''/api/memos/abc'' None) ex_env"
    and b: "authenticated ex_clock (ex_request ''DELETE'' ''/api/memos/-1'' None) ex_env"
    by (simp_all add: ex_eval)
  have t: "getBearerToken (ex_request ''DELETE'' ''/api/memos/-1'' None) = Some ''tok''"
    by (simp add: ex_eval)
  from non_numeric_memo_id [OF a, of "''abc''"] non_numeric_memo_id [OF b, of "''-1''"] t
  show ?thesis
    by (simp add: ex_request_def is_digit_def) (simp add: ex_env_def)
qed

subsection \<open>The list cache\<close>

lemma number_to_string_last: "last (number_to_string n) = char_of (48 + n mod 10)"
  by (subst number_to_string.simps) simp

lemma number_to_string_not_list: "number_to_string n \<noteq> ''list''"
proof
  assume "number_to_string n = ''list''"
  then have "last (number_to_string n) = CHR ''t''"
    by simp
  then have "of_char (char_of (48 + n mod 10) :: char) = (of_char CHR ''t'' :: nat)"
    by (simp add: number_to_string_last)
  then have "(48 + n mod 10) mod 256 = (116 :: nat)"
    by simp
  moreover have "n mod 10 < 10"
    by simp
  ultimately show False
    by simp
qed

lemma coherent_cong:
  "rows (DB e') = rows (DB e) \<Longrightarrow> MEMO_KV e' MEMO_LIST_CACHE_KEY = MEMO_KV e MEMO_LIST_CACHE_KEY \<Longrightarrow>
   list_cache_coherent e \<Longrightarrow> list_cache_coherent e'"
  by (cases "MEMO_KV e MEMO_LIST_CACHE_KEY") (simp_all add: list_cache_coherent_def listing_def)

lemma coherent_deleted: "MEMO_KV e MEMO_LIST_CACHE_KEY = None \<Longrightarrow> list_cache_coherent e"
  by (simp add: list_cache_coherent_def)

lemma login_coherent: "list_cache_coherent e \<Longrightarrow> list_cache_coherent (snd (login a r e))"
  by (rule coherent_cong [of _ e]) (simp_all add: login_def kv_put_def Let_def MEMO_LIST_CACHE_KEY_def)

lemma list_memos_coherent: "list_cache_coherent e \<Longrightarrow> list_cache_coherent (snd (list_memos a e))"
  by (cases "MEMO_KV e MEMO_LIST_CACHE_KEY")
    (auto simp: list_memos_def kv_get_def kv_put_def db_all_def Let_def list_cache_coherent_def
      listing_def)

lemma create_memo_coherent:
  "list_cache_coherent e \<Longrightarrow> list_cache_coherent (snd (create_memo a r e))"
  by (cases "string_field (json_body r) ''content''")
    (simp_all add: create_memo_def kv_delete_def db_insert_def Let_def coherent_deleted)

lemma memo_key_not_list: "''memo:'' @ number_to_string i \<noteq> MEMO_LIST_CACHE_KEY"
  by (simp add: MEMO_LIST_CACHE_KEY_def number_to_string_not_list)

lemma get_memo_coherent:
  assumes "list_cache_coherent e"
  shows "list_cache_coherent (snd (get_memo a i e))"
proof (rule coherent_cong [OF _ _ assms])
  show "rows (DB (snd (get_memo a i e))) = rows (DB e)"
    by (simp add: get_memo_def kv_get_def kv_put_def db_first_def Let_def split: option.splits)
  show "MEMO_KV (snd (get_memo a i e)) MEMO_LIST_CACHE_KEY = MEMO_KV e MEMO_LIST_CACHE_KEY"
    using memo_key_not_list [of i]
    by (simp add: get_memo_def kv_get_def kv_put_def db_first_def Let_def split: option.splits)
qed

lemma update_memo_coherent:
  assumes "list_cache_coherent e"
  shows "list_cache_coherent (snd (update_memo a r i e))"
proof (cases "string_field (json_body r) ''content''")
  case None
  with assms show ?thesis
    by (simp add: update_memo_def)
next
  case (Some c)
  show ?thesis
  proof (cases "find (\<lambda>m. memo_id m = i) (rows (DB e))")
    case None
    then have "snd (update_memo a r i e) = e\<lparr>ops := ops e @ [DbUpdate c (now_iso a) i]\<rparr>"
      by (simp add: update_memo_def Some db_update_def Let_def changes_zero_iff map_no_match)
    then show ?thesis
      by (intro coherent_cong [OF _ _ assms]) simp_all
  next
    case found: (Some old)
    have "MEMO_KV (snd (update_memo a r i e)) MEMO_LIST_CACHE_KEY = None"
      using found memo_key_not_list [of i]
      by (simp add: update_memo_def Some db_update_def db_first_def kv_delete_def Let_def
          changes_zero_iff find_after_update)
    then show ?thesis
      by (rule coherent_deleted)
  qed
qed

lemma delete_memo_coherent:
  assumes "list_cache_coherent e"
  shows "list_cache_coherent (snd (delete_memo i e))"
proof (cases "find (\<lambda>m. memo_id m = i) (rows (DB e))")
  case None
  then have "snd (delete_memo i e) = e\<lparr>ops := ops e @ [DbDelete i]\<rparr>"
    by (simp add: delete_memo_def db_delete_def Let_def changes_zero_iff filter_no_match)
  then show ?thesis
    by (intro coherent_cong [OF _ _ assms]) simp_all
next
  case (Some old)
  have "MEMO_KV (snd (delete_memo i e)) MEMO_LIST_CACHE_KEY = None"
    using Some memo_key_not_list [of i]
    by (simp add: delete_memo_def db_delete_def kv_delete_def Let_def changes_zero_iff)
  then show ?thesis
    by (rule coherent_deleted)
qed

lemma get_clip_coherent:
  assumes "list_cache_coherent e"
  shows "list_cache_coherent (snd (get_clip a e))"
  by (rule coherent_cong [OF _ _ assms])
    (simp_all add: get_clip_def kv_get_def split: option.splits)

lemma save_clip_coherent:
  assumes "list_cache_coherent e"
  shows "list_cache_coherent (snd (save_clip a r e))"
  by (rule coherent_cong [OF _ _ assms])
    (simp_all add: save_clip_def kv_put_def Let_def CLIP_CACHE_KEY_def MEMO_LIST_CACHE_KEY_def
      split: option.splits)

lemma clip_routes_coherent:
  "list_cache_coherent e \<Longrightarrow> list_cache_coherent (snd (clip_routes a r e))"
  by (simp add: clip_routes_def get_clip_coherent save_clip_coherent)

lemma routes_coherent: "list_cache_coherent e \<Longrightarrow> list_cache_coherent (snd (routes a r e))"
  by (simp add: routes_def list_memos_coherent create_memo_coherent get_memo_coherent
      update_memo_coherent delete_memo_coherent clip_routes_coherent split: option.splits)

lemma requireAuth_coherent:
  assumes "list_cache_coherent e"
  shows "list_cache_coherent (snd (requireAuth a r e))"
  by (rule coherent_cong [OF _ _ assms])
    (simp_all add: requireAuth_def kv_get_def split: option.splits)

lemma fetch_coherent:
  assumes "list_cache_coherent e"
  shows "list_cache_coherent (snd (fetch a r e))"
proof (cases "requireAuth a r e")
  case (Pair res e1)
  have e1: "list_cache_coherent e1"
    using requireAuth_coherent [OF assms, of a r] Pair by simp
  show ?thesis
    using assms e1 Pair
    by (cases res) (simp_all add: fetch_def login_coherent routes_coherent)
qed

lemma serve_Cons: "serve e ((a, r) # reqs) = serve (snd (fetch a r e)) reqs"
  by (simp add: serve_def)

lemma serve_coherent: "list_cache_coherent e \<Longrightarrow> list_cache_coherent (serve e reqs)"
proof (induction reqs arbitrary: e)
  case Nil
  then show ?case by (simp add: serve_def)
next
  case (Cons q reqs)
  obtain a r where q: "q = (a, r)"
    by (cases q)
  from Cons show ?case
    by (simp add: q serve_Cons fetch_coherent)
qed

lemma list_read_coherent:
  assumes "list_cache_coherent e" and "req_method r = ''GET''" and "pathname r = ''/api/memos''"
    and "authenticated a r e"
  shows "fst (fetch a r e) = jsonResponse (listing e) 200"
proof -
  from authenticated_routes [OF assms(4)] obtain tok where
    f: "fetch a r e = routes a r (e\<lparr>ops := ops e @ [KvGet (''auth:token:'' @ tok)]\<rparr>)"
    by blast
  have g: "routes a r e1 = list_memos a e1" for e1
    using assms(2,3) by (simp add: routes_def API_PREFIX_def)
  show ?thesis
  proof (cases "MEMO_KV e MEMO_LIST_CACHE_KEY")
    case None
    then show ?thesis
      unfolding f g by (simp add: list_memos_def kv_get_def kv_put_def db_all_def Let_def listing_def)
  next
    case (Some entry)
    with assms(1) have "fst entry = listing e"
      by (simp add: list_cache_coherent_def)
    with Some show ?thesis
      unfolding f g
      by (cases entry)
        (simp add: list_memos_def kv_get_def kv_put_def db_all_def Let_def listing_def)
  qed
qed

lemma create_memo_deletes:
  "status (fst (create_memo a r e)) < 400 \<Longrightarrow>
   MEMO_KV (snd (create_memo a r e)) MEMO_LIST_CACHE_KEY = None"
  by (cases "string_field (json_body r) ''content''")
    (simp_all add: create_memo_def db_insert_def kv_delete_def Let_def jsonResponse_def)

lemma update_memo_deletes:
  assumes "status (fst (update_memo a r i e)) < 400"
  shows "MEMO_KV (snd (update_memo a r i e)) MEMO_LIST_CACHE_KEY = None"
proof (cases "string_field (json_body r) ''content''")
  case None
  with assms show ?thesis
    by (simp add: update_memo_def jsonResponse_def)
next
  case (Some c)
  show ?thesis
  proof (cases "find (\<lambda>m. memo_id m = i) (rows (DB e))")
    case None
    with assms Some show ?thesis
      by (simp add: update_memo_def db_update_def Let_def changes_zero_iff jsonResponse_def)
  next
    case found: (Some old)
    then show ?thesis
      using memo_key_not_list [of i]
      by (simp add: update_memo_def Some db_update_def db_first_def kv_delete_def Let_def
          changes_zero_iff find_after_update)
  qed
qed

lemma delete_memo_deletes:
  assumes "status (fst (delete_memo i e)) < 400"
  shows "MEMO_KV (snd (delete_memo i e)) MEMO_LIST_CACHE_KEY = None"
proof (cases "find (\<lambda>m. memo_id m = i) (rows (DB e))")
  case None
  with assms show ?thesis
    by (simp add: delete_memo_def db_delete_def Let_def changes_zero_iff jsonResponse_def)
next
  case (Some old)
  then show ?thesis
    using memo_key_not_list [of i]
    by (simp add: delete_memo_def db_delete_def kv_delete_def Let_def changes_zero_iff)
qed

lemma write_deletes_list_key:
  assumes "memo_write w" and "authenticated a w e" and "status (fst (fetch a w e)) < 400"
  shows "MEMO_KV (snd (fetch a w e)) MEMO_LIST_CACHE_KEY = None"
proof -
  from authenticated_routes [OF assms(2)] obtain tok where
    f: "fetch a w e = routes a w (e\<lparr>ops := ops e @ [KvGet (''auth:token:'' @ tok)]\<rparr>)"
    by blast
  let ?e1 = "e\<lparr>ops := ops e @ [KvGet (''auth:token:'' @ tok)]\<rparr>"
  from assms(1) consider
    (create) "pathname w = ''/api/memos''" "req_method w = ''POST''"
    | (update) i where "memoIdMatch (pathname w) = Some i" "req_method w = ''PUT''"
    | (delete) i where "memoIdMatch (pathname w) = Some i" "req_method w = ''DELETE''"
    by (auto simp: memo_write_def)
  then show ?thesis
  proof cases
    case create
    then have "routes a w ?e1 = create_memo a w ?e1"
      by (simp add: routes_def API_PREFIX_def)
    with assms(3) show ?thesis
      unfolding f by (simp add: create_memo_deletes)
  next
    case update
    then have "routes a w ?e1 = update_memo a w i ?e1"
      by (simp add: routes_def)
    with assms(3) show ?thesis
      unfolding f by (simp add: update_memo_deletes)
  next
    case delete
    then have "routes a w ?e1 = delete_memo i ?e1"
      by (simp add: routes_def)
    with assms(3) show ?thesis
      unfolding f by (simp add: delete_memo_deletes)
  qed
qed

text \<open>
  Claim C4. A create, update or delete that succeeds leaves the list cache key deleted;
  and after it, whatever requests follow, an authenticated \<open>GET /api/memos\<close> answers
  with the rows of the table as they are when it is handled, so never with a list older
  than the write.
\<close>

theorem list_read_after_write:
  assumes "memo_write w" and "authenticated a w e" and "status (fst (fetch a w e)) < 400"
    and "req_method r = ''GET''" and "pathname r = ''/api/memos''"
    and "authenticated a' r (serve (snd (fetch a w e)) reqs)"
  shows "MEMO_KV (snd (fetch a w e)) MEMO_LIST_CACHE_KEY = None \<and>
         fst (fetch a' r (serve (snd (fetch a w e)) reqs)) =
           jsonResponse (listing (serve (snd (fetch a w e)) reqs)) 200"
proof -
  have gone: "MEMO_KV (snd (fetch a w e)) MEMO_LIST_CACHE_KEY = None"
    using assms(1-3) by (rule write_deletes_list_key)
  then have "list_cache_coherent (serve (snd (fetch a w e)) reqs)"
    by (intro serve_coherent coherent_deleted)
  then show ?thesis
    using gone assms(4-6) by (simp add: list_read_coherent)
qed

text \<open>The theorem of claim C4 at sample requests.\<close>

theorem list_read_after_write_witness:
  "fst (fetch ex_clock (ex_request ''GET'' ''/api/memos'' None)
      (snd (fetch ex_clock (ex_request ''PUT'' ''/api/memos/1'' (Some (JObj [(''content'', JStr ''b'')])))
         (snd (fetch ex_clock (ex_request ''GET'' ''/api/memos'' None) ex_env)))))
   = jsonResponse (JArr [memo_json \<lparr>memo_id = 1, content = ''b'',
        created_at = ''2026-01-01T00:00:00.000Z'', updated_at = ''2026-01-01T00:00:10.000Z''\<rparr>]) 200"
proof -
  let ?l = "ex_request ''GET'' ''/api/memos'' None"
  let ?w = "ex_request ''PUT'' ''/api/memos/1'' (Some (JObj [(''content'', JStr ''b'')]))"
  let ?e = "snd (fetch ex_clock ?l ex_env)"
  have mw: "memo_write ?w"
    by (simp add: all_eval)
  have aw: "authenticated ex_clock ?w ?e"
    by (simp add: all_eval)
  have ok: "status (fst (fetch ex_clock ?w ?e)) < 400"
    by (simp add: all_eval)
  have al: "authenticated ex_clock ?l (serve (snd (fetch ex_clock ?w ?e)) [])"
    by (simp add: all_eval)
  have l: "req_method ?l = ''GET''" "pathname ?l = ''/api/memos''"
    by (simp_all add: ex_request_def)
  have now: "listing (serve (snd (fetch ex_clock ?w ?e)) []) =
      JArr [memo_json \<lparr>memo_id = 1, content = ''b'',
        created_at = ''2026-01-01T00:00:00.000Z'', updated_at = ''2026-01-01T00:00:10.000Z''\<rparr>]"
    by (simp add: all_eval)
  from list_read_after_write [OF mw aw ok l al] now
  show ?thesis
    by (simp add: serve_def)
qed

subsection \<open>Unknown routes and bad payloads\<close>

lemma routes_undefined:
  assumes "\<not> defined_endpoint r"
  shows "routes a r e = (jsonResponse (error_json ''not_found'') 404, e)"
  using assms
  by (cases "memoIdMatch (pathname r)")
    (auto simp: defined_endpoint_def routes_def clip_routes_def API_PREFIX_def)

lemma get_prop_truthy: "get_prop v k = Some x \<Longrightarrow> truthy v"
  by (cases v) simp_all

lemma login_bad_payload:
  assumes "string_field (json_body r) ''password'' = None"
  shows "fst (login a r e) = jsonResponse (error_json ''invalid_credentials'') 401"
proof -
  have "falsy (opt_prop (json_body r) ''password'') \<or>
        opt_prop (json_body r) ''password'' \<noteq> Some (JStr (APP_PASSWORD e))"
    using assms
    by (auto simp: string_field_def falsy_def opt_prop_def dest: get_prop_truthy
        split: option.splits if_splits)
  then show ?thesis
    by (auto simp: login_def Let_def)
qed

text \<open>
  Claim C6, as the code has it. A request under \<open>/api\<close> that is not a preflight and
  matches no endpoint is answered 404 \<open>not_found\<close> when it is authenticated, and 401
  \<open>unauthorized\<close> when it is not: \<open>requireAuth\<close> comes before the routes. A request to an
  endpoint that requires a field, whose body is malformed or lacks the field as a
  string, is answered with a client error and a code: 401 \<open>invalid_credentials\<close> at the
  login, 400 \<open>invalid_payload\<close> for an authenticated request, 401 \<open>unauthorized\<close>
  for one that is not.
\<close>

theorem unknown_route_and_bad_payload:
  "(starts_with API_PREFIX (pathname r) \<and> req_method r \<noteq> ''OPTIONS'' \<and> \<not> defined_endpoint r \<longrightarrow>
      (authenticated a r e \<longrightarrow>
         fst (fetch a r e) = jsonResponse (error_json ''not_found'') 404) \<and>
      (\<not> authenticated a r e \<longrightarrow>
         fst (fetch a r e) = jsonResponse (error_json ''unauthorized'') 401)) \<and>
   (\<forall>k. required_field r = Some k \<and> string_field (json_body r) k = None \<longrightarrow>
      fst (fetch a r e) =
        (if pathname r = ''/api/login'' then jsonResponse (error_json ''invalid_credentials'') 401
         else if authenticated a r e then jsonResponse (error_json ''invalid_payload'') 400
         else jsonResponse (error_json ''unauthorized'') 401))"
proof (intro conjI impI allI)
  assume h: "starts_with API_PREFIX (pathname r) \<and> req_method r \<noteq> ''OPTIONS'' \<and> \<not> defined_endpoint r"
  then have reach: "reaches_auth r"
    by (auto simp: reaches_auth_def defined_endpoint_def API_PREFIX_def)
  {
    assume au: "authenticated a r e"
    from authenticated_routes [OF au] h
    show "fst (fetch a r e) = jsonResponse (error_json ''not_found'') 404"
      by (auto simp: routes_undefined)
  next
    assume "\<not> authenticated a r e"
    with reach show "fst (fetch a r e) = jsonResponse (error_json ''unauthorized'') 401"
      by (rule unauthenticated_routes(1))
  }
next
  fix k
  assume h: "required_field r = Some k \<and> string_field (json_body r) k = None"
  show "fst (fetch a r e) =
        (if pathname r = ''/api/login'' then jsonResponse (error_json ''invalid_credentials'') 401
         else if authenticated a r e then jsonResponse (error_json ''invalid_payload'') 400
         else jsonResponse (error_json ''unauthorized'') 401)"
  proof (cases "pathname r = ''/api/login''")
    case True
    with h have "req_method r = ''POST''" "k = ''password''"
      by (auto simp: required_field_def memoIdMatch_def starts_with_def split: if_splits)
    with True h show ?thesis
      by (simp add: fetch_def starts_with_def API_PREFIX_def login_bad_payload)
  next
    case False
    from h have m: "req_method r = ''POST'' \<or> req_method r = ''PUT''"
      by (auto simp: required_field_def split: if_splits)
    have "starts_with API_PREFIX ''/api/memos''" "starts_with API_PREFIX ''/api/clip''"
      by (simp_all add: starts_with_def API_PREFIX_def)
    with h False have p: "starts_with API_PREFIX (pathname r)"
      by (auto simp: required_field_def memoIdMatch_prefix split: if_splits)
    from m p False have reach: "reaches_auth r"
      by (auto simp: reaches_auth_def API_PREFIX_def)
    show ?thesis
    proof (cases "authenticated a r e")
      case au: True
      from authenticated_routes [OF au] obtain tok where
        f: "fetch a r e = routes a r (e\<lparr>ops := ops e @ [KvGet (''auth:token:'' @ tok)]\<rparr>)"
        by blast
      from h False have "fst (routes a r e1) = jsonResponse (error_json ''invalid_payload'') 400" for e1
        by (auto simp: required_field_def routes_def clip_routes_def API_PREFIX_def create_memo_def
            update_memo_def save_clip_def memoIdMatch_def
            split: if_splits option.splits)
      with au False f show ?thesis
        by simp
    next
      case nau: False
      with reach have "fst (fetch a r e) = jsonResponse (error_json ''unauthorized'') 401"
        by (rule unauthenticated_routes(1))
      with nau False show ?thesis
        by simp
    qed
  qed
qed

text \<open>The theorem of claim C6 at sample requests.\<close>

theorem unknown_route_and_bad_payload_witness:
  "fst (fetch ex_clock (ex_request ''GET'' ''/api/nothing'' None) ex_env)
     = jsonResponse (error_json ''not_found'') 404 \<and>
   fst (fetch ex_clock (ex_request ''POST'' ''/api/clip'' None) ex_env)
     = jsonResponse (error_json ''invalid_payload'') 400"
proof -
  let ?u = "ex_request ''GET'' ''/api/nothing'' None"
  let ?b = "ex_request ''POST'' ''/api/clip'' None"
  have u: "starts_with API_PREFIX (pathname ?u)" "req_method ?u \<noteq> ''OPTIONS''"
    "\<not> defined_endpoint ?u" "authenticated ex_clock ?u ex_env"
    by (simp_all add: ex_eval defined_endpoint_def)
  have b: "required_field ?b = Some ''text''" "string_field (json_body ?b) ''text'' = None"
    "authenticated ex_clock ?b ex_env" "pathname ?b \<noteq> ''/api/login''"
    by (simp_all add: ex_eval required_field_def)
  from unknown_route_and_bad_payload [of ?u ex_clock ex_env]
    unknown_route_and_bad_payload [of ?b ex_clock ex_env] u b
  show ?thesis
    by simp
qed

text \<open>
  Claim C6 as stated fails without a session: \<open>GET /api/nothing\<close> with no bearer token
  matches no endpoint and is answered 401 \<open>unauthorized\<close>, not 404.
\<close>

theorem unknown_route_unauthenticated:
  "starts_with API_PREFIX ''/api/nothing'' \<and>
   \<not> defined_endpoint \<lparr>req_method = ''GET'', pathname = ''/api/nothing'', authorization = None, json_body = None\<rparr> \<and>
   fst (fetch ex_clock \<lparr>req_method = ''GET'', pathname = ''/api/nothing'', authorization = None, json_body = None\<rparr> ex_env)
     = jsonResponse (error_json ''unauthorized'') 401 \<and>
   fst (fetch ex_clock \<lparr>req_method = ''GET'', pathname = ''/api/nothing'', authorization = None, json_body = None\<rparr> ex_env)
     \<noteq> jsonResponse (error_json ''not_found'') 404"
  by (simp add: fetch_def starts_with_def API_PREFIX_def defined_endpoint_def memoIdMatch_def
      requireAuth_def getBearerToken_def jsonResponse_def error_json_def)

section \<open>Properties of the client editor\<close>

lemmas client_defs = markDirty_def scheduleAutosave_def saveMemo_def saveMemo_finally_def
  saveMemo_resume_def autosave_fired_def selectMemo_def startNewMemo_def signOut_def setToken_def
  apiFetch_outcome_def loadMemos_resume_def deleteMemo_resume_def scheduleClipAutosave_def
  saveClip_def saveClip_resume_def clip_autosave_fired_def clip_autosave_resume_def clearClip_def
  clearClip_resume_def loadClip_resume_def clip_resume_def Let_def

lemmas client_eval = run_def init_client_def client_defs trim_def is_space_def put_id_def
  remove_nth_def ex_memo_def ex_saving_def ex_editing_def AUTOSAVE_DELAY_MS_def in_flight_def text_or_empty_def

subsection \<open>The follow-up save of the memo draft\<close>

text \<open>
  Claim C2, as the code has it. With a session token present, an edit that arrives while
  a memo save is in flight sends nothing and sets the pending flag. When the save
  completes, no request is sent at that moment: the pending flag is cleared and, if the
  draft is still dirty and the token still present, \<open>scheduleAutosave\<close> sets the timer
  to the full \<open>AUTOSAVE_DELAY_MS\<close>. After a failure other than 401 the draft is dirty and
  the timer is set; the follow-up save is the one the timer sends when it fires.
\<close>

theorem pending_save_is_debounced:
  assumes "isSaving s" and "token s \<noteq> []" and "i < length (memo_saves s)"
  shows "let s1 = step s (EditMemo c); s2 = step s1 (MemoSaveDone i res)
         in memoAutosavePending s1 \<and> memo_saves s1 = memo_saves s \<and>
            memo_saves s2 = remove_nth i (memo_saves s) \<and> \<not> memoAutosavePending s2 \<and>
            (editorDirty s2 \<and> token s2 \<noteq> [] \<longrightarrow> autosaveTimer s2 = Some AUTOSAVE_DELAY_MS) \<and>
            (res = Failure \<longrightarrow> editorDirty s2 \<and> autosaveTimer s2 = Some AUTOSAVE_DELAY_MS) \<and>
            (res = Failure \<and> trim c \<noteq> [] \<and> trim c \<noteq> memoLastSavedContent s \<and>
             (put_id (selectedId s) = None \<longrightarrow> 3 \<le> length (trim c)) \<longrightarrow>
               memo_saves (step s2 AutosaveTimer) =
                 remove_nth i (memo_saves s) @
                   [\<lparr>sent_content = trim c, sent_id = put_id (selectedId s), silent = True,
                     fromAutosave = True, memo_bearer = token s\<rparr>])"
  using assms
  by (cases res) (auto simp: client_defs split: option.splits)

text \<open>The theorem of claim C2 at sample runs.\<close>

theorem pending_save_is_debounced_witness:
  "isSaving ex_saving \<and> token ex_saving \<noteq> [] \<and> 0 < length (memo_saves ex_saving) \<and>
   memoAutosavePending (step ex_saving (EditMemo ''abcd'')) \<and>
   memo_saves (step (step ex_saving (EditMemo ''abcd'')) (MemoSaveDone 0 Failure)) = [] \<and>
   autosaveTimer (step (step ex_saving (EditMemo ''abcd'')) (MemoSaveDone 0 Failure)) = Some 5000 \<and>
   memo_saves (step (step (step ex_saving (EditMemo ''abcd'')) (MemoSaveDone 0 Failure)) AutosaveTimer)
     = [\<lparr>sent_content = ''abcd'', sent_id = None, silent = True, fromAutosave = True, memo_bearer = ''t''\<rparr>]"
proof -
  have h: "isSaving ex_saving" "token ex_saving \<noteq> []" "0 < length (memo_saves ex_saving)"
    by (simp_all add: ex_saving_def client_eval)
  have v: "trim ''abcd'' = ''abcd''" "memoLastSavedContent ex_saving = []"
    "put_id (selectedId ex_saving) = None" "token ex_saving = ''t''"
    "remove_nth 0 (memo_saves ex_saving) = []"
    by (simp_all add: ex_saving_def client_eval)
  from pending_save_is_debounced [OF h, of "''abcd''" Failure] h v
  show ?thesis
    by (simp del: step.simps add: Let_def AUTOSAVE_DELAY_MS_def)
qed

text \<open>
  Claim C2 as stated fails: after an edit during a save that then fails, the draft is
  dirty and the pending flag was set, yet no request is in flight when the save has
  completed; the follow-up waits for a new timer of 5000 ms.
\<close>

theorem pending_save_not_immediate:
  "memoAutosavePending (run (init_client ''t'') [EditMemo ''abc'', SaveMemoClick, EditMemo ''abcd'']) \<and>
   editorDirty (run (init_client ''t'') [EditMemo ''abc'', SaveMemoClick, EditMemo ''abcd'', MemoSaveDone 0 Failure]) \<and>
   memo_saves (run (init_client ''t'') [EditMemo ''abc'', SaveMemoClick, EditMemo ''abcd'', MemoSaveDone 0 Failure]) = [] \<and>
   autosaveTimer (run (init_client ''t'') [EditMemo ''abc'', SaveMemoClick, EditMemo ''abcd'', MemoSaveDone 0 Failure]) = Some AUTOSAVE_DELAY_MS"
  by (simp add: run_def init_client_def client_defs trim_def is_space_def put_id_def remove_nth_def)

subsection \<open>Autosave of unchanged content\<close>

lemma autosave_fired_clean:
  "\<not> editorDirty s \<Longrightarrow> memo_saves (autosave_fired s) = memo_saves s"
  by (simp add: autosave_fired_def Let_def split: option.splits)

lemma autosave_fired_same:
  "trim (editorContent s) = memoLastSavedContent s \<Longrightarrow>
   memo_saves (autosave_fired s) = memo_saves s"
  by (simp add: autosave_fired_def saveMemo_def Let_def split: option.splits)

lemma clip_autosave_fired_same:
  "clipText s = clipLastSavedText s \<Longrightarrow> clip_posts (clip_autosave_fired s) = clip_posts s"
  by (simp add: clip_autosave_fired_def Let_def split: option.splits)

lemma saveMemo_resume_success_clean:
  "\<not> editorDirty (saveMemo_resume q (Success data) s)"
  by (simp add: client_defs split: option.splits)

lemma clip_resume_success_same:
  "clipText (clip_resume q (Success payload) s) = clipLastSavedText (clip_resume q (Success payload) s)"
  by (cases "writer q") (simp_all add: client_defs)

text \<open>
  Claim C9, as the code has it. A memo timer that fires while the trimmed content of the
  editor equals the snapshot sends nothing; a clip timer that fires while the clip text
  equals its snapshot sends nothing. After a save that succeeded, of either draft, a
  timer that fires before the next edit sends nothing.
\<close>

theorem autosave_unchanged_content:
  "(trim (editorContent s) = memoLastSavedContent s \<longrightarrow>
      memo_saves (step s AutosaveTimer) = memo_saves s) \<and>
   (clipText s = clipLastSavedText s \<longrightarrow>
      clip_posts (step s ClipAutosaveTimer) = clip_posts s) \<and>
   (i < length (memo_saves s) \<longrightarrow>
      (let s1 = step s (MemoSaveDone i (Success data))
       in memo_saves (step s1 AutosaveTimer) = memo_saves s1)) \<and>
   (j < length (clip_posts s) \<longrightarrow>
      (let s1 = step s (ClipPostDone j (Success payload))
       in clip_posts (step s1 ClipAutosaveTimer) = clip_posts s1))"
  by (simp add: autosave_fired_same clip_autosave_fired_same autosave_fired_clean
      saveMemo_resume_success_clean clip_resume_success_same Let_def)

text \<open>The theorem of claim C9 at sample runs.\<close>

theorem autosave_unchanged_content_witness:
  "memo_saves (step (run (init_client ''t'') [MemosLoaded (Success [ex_memo ''a'']), EditMemo ''a '']) AutosaveTimer) = [] \<and>
   clip_posts (step (run (init_client ''t'') [EditClip ''x'', EditClip '''']) ClipAutosaveTimer) = [] \<and>
   memo_saves (step (step ex_saving (MemoSaveDone 0 (Success (ex_memo ''abc'')))) AutosaveTimer) = [] \<and>
   clip_posts (step (step (run (init_client ''t'') [EditClip ''x'', SaveClipClick])
                 (ClipPostDone 0 (Success \<lparr>payload_text = Some ''x'', payload_created_at = None\<rparr>)))
               ClipAutosaveTimer) = []"
proof -
  let ?m = "run (init_client ''t'') [MemosLoaded (Success [ex_memo ''a'']), EditMemo ''a '']"
  let ?c = "run (init_client ''t'') [EditClip ''x'', EditClip '''']"
  let ?p = "run (init_client ''t'') [EditClip ''x'', SaveClipClick]"
  let ?ok = "Success \<lparr>payload_text = Some ''x'', payload_created_at = None\<rparr>"
  have m: "trim (editorContent ?m) = memoLastSavedContent ?m" "memo_saves ?m = []"
    by (simp_all add: client_eval)
  have c: "clipText ?c = clipLastSavedText ?c" "clip_posts ?c = []"
    by (simp_all add: client_eval)
  have s: "0 < length (memo_saves ex_saving)"
    "memo_saves (step ex_saving (MemoSaveDone 0 (Success (ex_memo ''abc'')))) = []"
    by (simp_all add: ex_saving_def client_eval)
  have p: "0 < length (clip_posts ?p)" "clip_posts (step ?p (ClipPostDone 0 ?ok)) = []"
    by (simp_all add: client_eval)
  from autosave_unchanged_content [of ?m] autosave_unchanged_content [of ?c]
    autosave_unchanged_content [of ex_saving 0 "ex_memo ''abc''"]
    autosave_unchanged_content [of ?p _ _ 0 "\<lparr>payload_text = Some ''x'', payload_created_at = None\<rparr>"]
    m c s p
  show ?thesis
    by (simp del: step.simps add: Let_def)
qed

text \<open>
  Claim C9 as stated fails for the memo draft when the snapshot has surrounding white
  space (a memo the server returned with such content): \<open>saveMemo\<close> compares the
  trimmed content with the snapshot, so with the content of the editor back at the
  snapshot \<open>" a "\<close> (a character typed and deleted) the timer sends a \<open>PUT\<close> of
  \<open>"a"\<close>.
\<close>

theorem autosave_untrimmed_snapshot:
  "editorContent (run (init_client ''t'')
       [MemosLoaded (Success [ex_memo '' a '']), EditMemo '' a x'', EditMemo '' a ''])
     = memoLastSavedContent (run (init_client ''t'')
         [MemosLoaded (Success [ex_memo '' a '']), EditMemo '' a x'', EditMemo '' a '']) \<and>
   memo_saves (run (init_client ''t'')
       [MemosLoaded (Success [ex_memo '' a '']), EditMemo '' a x'', EditMemo '' a '']) = [] \<and>
   memo_saves (run (init_client ''t'')
       [MemosLoaded (Success [ex_memo '' a '']), EditMemo '' a x'', EditMemo '' a '', AutosaveTimer])
     = [\<lparr>sent_content = ''a'', sent_id = Some 1, silent = True, fromAutosave = True,
         memo_bearer = ''t''\<rparr>]"
  by (simp add: client_eval)

subsection \<open>A save answered 401\<close>

text \<open>
  What does hold when a memo save is answered 401: the token is cleared, the draft and
  its snapshot are as before, and the completion itself sends nothing and sets no timer.
\<close>

lemma unauthorized_save_keeps_draft:
  assumes "i < length (memo_saves s)"
  shows "token (step s (MemoSaveDone i Status401)) = [] \<and>
         editorDirty (step s (MemoSaveDone i Status401)) = editorDirty s \<and>
         memoLastSavedContent (step s (MemoSaveDone i Status401)) = memoLastSavedContent s \<and>
         editorContent (step s (MemoSaveDone i Status401)) = editorContent s \<and>
         autosaveTimer (step s (MemoSaveDone i Status401)) = autosaveTimer s \<and>
         memo_saves (step s (MemoSaveDone i Status401)) = remove_nth i (memo_saves s)"
  using assms by (simp add: client_defs)

text \<open>
  Claim C7 at a run the code breaks it on. The user types (which sets the autosave
  timer), saves by hand before the timer fires, and the save is answered 401. The token
  is cleared, the draft stays dirty and its snapshot is unchanged, as the claim says. But
  the timer set by the typing is still waiting, and neither its callback nor \<open>saveMemo\<close>
  looks at the token: when it fires, an autosave (\<open>silent\<close>, so no message is shown) is
  sent with no bearer token.
\<close>

theorem autosave_without_token:
  "token (run (init_client ''t'') [EditMemo ''abc'', SaveMemoClick, MemoSaveDone 0 Status401]) = [] \<and>
   editorDirty (run (init_client ''t'') [EditMemo ''abc'', SaveMemoClick, MemoSaveDone 0 Status401]) \<and>
   memoLastSavedContent (run (init_client ''t'') [EditMemo ''abc'', SaveMemoClick, MemoSaveDone 0 Status401]) = [] \<and>
   memo_saves (run (init_client ''t'') [EditMemo ''abc'', SaveMemoClick, MemoSaveDone 0 Status401]) = [] \<and>
   memo_saves (run (init_client ''t'') [EditMemo ''abc'', SaveMemoClick, MemoSaveDone 0 Status401, AutosaveTimer])
     = [\<lparr>sent_content = ''abc'', sent_id = None, silent = True, fromAutosave = True, memo_bearer = []\<rparr>]"
  by (simp add: client_eval)

subsection \<open>Single flight\<close>

lemma remove_nth_single: "length xs \<le> 1 \<Longrightarrow> i < length xs \<Longrightarrow> remove_nth i xs = []"
  by (cases xs) (simp_all add: remove_nth_def)

lemma filter_remove_nth:
  assumes "i < length xs"
  shows "length (filter P (remove_nth i xs)) =
         length (filter P xs) - (if P (xs ! i) then 1 else 0)"
proof -
  have "xs = take i xs @ xs ! i # drop (Suc i) xs"
    using assms by (rule id_take_nth_drop)
  then have "filter P xs = filter P (take i xs) @ filter P [xs ! i] @ filter P (drop (Suc i) xs)"
    by (metis append_Cons append_Nil filter_append)
  then show ?thesis
    by (simp add: remove_nth_def)
qed

lemma saveMemo_finally_flight [simp]:
  "memo_saves (saveMemo_finally s) = memo_saves s" "\<not> isSaving (saveMemo_finally s)"
  by (simp_all add: saveMemo_finally_def scheduleAutosave_def Let_def)

lemma saveMemo_flight:
  "memo_single_flight s \<Longrightarrow> memo_single_flight (saveMemo sil auto s)"
  by (auto simp: memo_single_flight_def saveMemo_def Let_def split: option.splits)

lemma saveMemo_resume_flight [simp]:
  "memo_saves (saveMemo_resume q res s) = memo_saves s" "\<not> isSaving (saveMemo_resume q res s)"
  by (cases res; simp add: saveMemo_resume_def selectMemo_def apiFetch_outcome_def setToken_def
      Let_def split: option.splits)+

lemma clip_resume_memo_frame [simp]:
  "isSaving (clip_resume q res s) = isSaving s" "memo_saves (clip_resume q res s) = memo_saves s"
  by (cases "writer q"; cases res; simp add: client_defs)+

lemma memo_single_flight_step:
  assumes "memo_single_flight s"
  shows "memo_single_flight (step s ev)"
proof (cases ev)
  case SaveMemoClick
  with assms show ?thesis by (simp add: saveMemo_flight)
next
  case AutosaveTimer
  have "memo_single_flight (s\<lparr>autosaveTimer := None\<rparr>)"
    using assms by (simp add: memo_single_flight_def)
  with assms AutosaveTimer show ?thesis
    by (simp add: autosave_fired_def Let_def saveMemo_flight split: option.splits)
next
  case (MemoSaveDone i res)
  with assms show ?thesis
    by (simp add: memo_single_flight_def remove_nth_single)
next
  case (ClipPostDone j res)
  with assms show ?thesis
    by (simp add: memo_single_flight_def)
qed (use assms in \<open>simp_all add: memo_single_flight_def client_defs
      split: option.splits api_result.splits list.splits\<close>)

lemma saveClip_resume_flight [simp]:
  "clip_posts (saveClip_resume res s) = clip_posts s" "\<not> clipSaving (saveClip_resume res s)"
  "clipClearing (saveClip_resume res s) = clipClearing s"
  by (cases res; simp add: client_defs)+

lemma clip_autosave_resume_flight [simp]:
  "clip_posts (clip_autosave_resume res s) = clip_posts s"
  "clipSaving (clip_autosave_resume res s) = clipSaving s"
  "clipClearing (clip_autosave_resume res s) = clipClearing s"
  by (cases res; simp add: client_defs)+

lemma clearClip_resume_flight [simp]:
  "clip_posts (clearClip_resume res s) = clip_posts s"
  "clipSaving (clearClip_resume res s) = clipSaving s"
  "\<not> clipClearing (clearClip_resume res s)"
  by (cases res; simp add: client_defs)+

lemma saveMemo_clip_frame [simp]:
  "clip_posts (saveMemo sil auto s) = clip_posts s"
  "clipSaving (saveMemo sil auto s) = clipSaving s"
  "clipClearing (saveMemo sil auto s) = clipClearing s"
  by (simp_all add: client_defs split: option.splits)

lemma saveMemo_resume_clip_frame [simp]:
  "clip_posts (saveMemo_resume q res s) = clip_posts s"
  "clipSaving (saveMemo_resume q res s) = clipSaving s"
  "clipClearing (saveMemo_resume q res s) = clipClearing s"
  by (cases res; simp add: client_defs split: option.splits)+

lemma clip_single_flight_step:
  assumes "clip_single_flight s"
  shows "clip_single_flight (step s ev)"
proof (cases ev)
  case (ClipPostDone j res)
  show ?thesis
  proof (cases "j < length (clip_posts s)")
    case False
    with assms ClipPostDone show ?thesis by simp
  next
    case True
    note fr = filter_remove_nth [OF True]
    show ?thesis
    proof (cases "writer (clip_posts s ! j)")
      case SaveClip
      with assms True ClipPostDone show ?thesis
        by (simp add: clip_single_flight_def in_flight_def clip_resume_def fr)
    next
      case ClipAutosave
      with assms True ClipPostDone show ?thesis
        by (simp add: clip_single_flight_def in_flight_def clip_resume_def fr)
    next
      case ClearClip
      with assms True ClipPostDone show ?thesis
        by (simp add: clip_single_flight_def in_flight_def clip_resume_def fr)
    qed
  qed
next
  case AutosaveTimer
  with assms show ?thesis
    by (simp add: clip_single_flight_def in_flight_def autosave_fired_def Let_def
        split: option.splits)
next
  case (MemoSaveDone i res)
  with assms show ?thesis
    by (simp add: clip_single_flight_def in_flight_def)
next
  case SaveMemoClick
  with assms show ?thesis
    by (simp add: clip_single_flight_def in_flight_def)
qed (use assms in \<open>auto simp: clip_single_flight_def in_flight_def client_defs
      split: option.splits api_result.splits list.splits\<close>)

lemma single_flight_run:
  "memo_single_flight s \<Longrightarrow> clip_single_flight s \<Longrightarrow>
   memo_single_flight (run s evs) \<and> clip_single_flight (run s evs)"
  unfolding run_def
  by (induction evs arbitrary: s) (simp_all add: memo_single_flight_step clip_single_flight_step)

lemma single_flight_init: "memo_single_flight (init_client tok)" "clip_single_flight (init_client tok)"
  by (simp_all add: memo_single_flight_def clip_single_flight_def in_flight_def init_client_def)

lemma saveMemo_pending:
  "memoAutosavePending s \<longrightarrow> isSaving s \<Longrightarrow>
   memoAutosavePending (saveMemo sil auto s) \<longrightarrow> isSaving (saveMemo sil auto s)"
  by (auto simp: saveMemo_def saveMemo_finally_def scheduleAutosave_def Let_def split: option.splits)

lemma saveMemo_resume_pending [simp]: "\<not> memoAutosavePending (saveMemo_resume q res s)"
  by (cases res) (simp_all add: client_defs split: option.splits)

lemma clip_resume_memo_pending [simp]:
  "memoAutosavePending (clip_resume q res s) = memoAutosavePending s"
  by (cases "writer q"; cases res; simp add: client_defs)

lemma memo_pending_inv_step:
  assumes "memo_pending_inv s"
  shows "memo_pending_inv (step s ev)"
proof -
  from assms have sf: "memo_single_flight (step s ev)"
    by (simp add: memo_pending_inv_def memo_single_flight_step)
  from assms have p: "memoAutosavePending s \<longrightarrow> isSaving s"
    by (simp add: memo_pending_inv_def)
  have "memoAutosavePending (step s ev) \<longrightarrow> isSaving (step s ev)"
  proof (cases ev)
    case SaveMemoClick
    with p show ?thesis by (simp add: saveMemo_pending)
  next
    case AutosaveTimer
    have "memoAutosavePending (s\<lparr>autosaveTimer := None\<rparr>) \<longrightarrow> isSaving (s\<lparr>autosaveTimer := None\<rparr>)"
      using p by simp
    from saveMemo_pending [OF this] p AutosaveTimer show ?thesis
      by (simp add: autosave_fired_def Let_def split: option.splits)
  next
    case (MemoSaveDone i res)
    with p show ?thesis by simp
  next
    case (ClipPostDone j res)
    with p show ?thesis by simp
  qed (use p in \<open>auto simp: client_defs split: option.splits api_result.splits list.splits\<close>)
  with sf show ?thesis
    by (simp add: memo_pending_inv_def)
qed

lemma memo_sends_step:
  assumes "memo_pending_inv s" and "memo_quiet ev"
  shows "(if length (memo_saves s) < length (memo_saves (step s ev)) then 1 else 0) +
         memo_budget (step s ev) \<le> memo_budget s"
proof (cases ev)
  case AutosaveTimer
  show ?thesis
  proof (cases "autosaveTimer s")
    case None
    with AutosaveTimer show ?thesis
      by (simp add: autosave_fired_def)
  next
    case (Some d)
    from assms(1) have p: "memoAutosavePending s \<longrightarrow> isSaving s"
      by (simp add: memo_pending_inv_def)
    show ?thesis
    proof (cases "isSaving s")
      case True
      with Some AutosaveTimer show ?thesis
        by (simp add: autosave_fired_def saveMemo_def memo_budget_def Let_def)
    next
      case False
      with p have np: "\<not> memoAutosavePending s"
        by simp
      have "\<not> memoAutosavePending (step s ev)" "autosaveTimer (step s ev) = None"
        using False np Some AutosaveTimer
        by (simp_all add: autosave_fired_def saveMemo_def saveMemo_finally_def Let_def
            split: option.splits)
      then have "memo_budget (step s ev) = 0"
        by (simp add: memo_budget_def)
      moreover have "memo_budget s = 1"
        using Some by (simp add: memo_budget_def)
      ultimately show ?thesis
        by simp
    qed
  qed
next
  case (MemoSaveDone i res)
  show ?thesis
  proof (cases "i < length (memo_saves s)")
    case False
    with MemoSaveDone show ?thesis by simp
  next
    case True
    have len: "length (memo_saves (step s ev)) \<le> length (memo_saves s)"
      using True MemoSaveDone by (simp add: remove_nth_def)
    have "memo_budget (step s ev) \<le> memo_budget s"
      using True MemoSaveDone
      by (cases res)
        (simp_all add: memo_budget_def saveMemo_resume_def saveMemo_finally_def
          scheduleAutosave_def selectMemo_def apiFetch_outcome_def setToken_def Let_def
          split: option.splits)
    with len show ?thesis
      by simp
  qed
qed (use assms(2) in simp_all)

lemma memo_sends_quiet:
  "memo_pending_inv s \<Longrightarrow> list_all memo_quiet evs \<Longrightarrow>
   memo_sends s evs + memo_budget (run s evs) \<le> memo_budget s"
proof (induction evs arbitrary: s)
  case Nil
  then show ?case by (simp add: run_def)
next
  case (Cons ev evs)
  from Cons.prems have q: "memo_quiet ev" "list_all memo_quiet evs"
    by simp_all
  have "memo_sends (step s ev) evs + memo_budget (run (step s ev) evs) \<le> memo_budget (step s ev)"
    using Cons.prems(1) q(2) by (intro Cons.IH memo_pending_inv_step)
  moreover note memo_sends_step [OF Cons.prems(1) q(1)]
  moreover have "run s (ev # evs) = run (step s ev) evs"
    by (simp add: run_def)
  ultimately show ?case
    by simp
qed

lemma clip_pending_frame:
  "clipAutosavePending (saveMemo sil auto s) = clipAutosavePending s"
  "clipAutosavePending (saveMemo_resume q res s) = clipAutosavePending s"
  "clipAutosaveTimer (saveMemo sil auto s) = clipAutosaveTimer s"
  "clipAutosaveTimer (saveMemo_resume q res s) = clipAutosaveTimer s"
  by (cases res; simp add: client_defs split: option.splits)+

lemma clip_pending_inv_step:
  assumes "clip_pending_inv s"
  shows "clip_pending_inv (step s ev)"
proof -
  from assms have sf: "clip_single_flight (step s ev)"
    by (simp add: clip_pending_inv_def clip_single_flight_step)
  from assms have p: "clipAutosavePending s \<longrightarrow> clipSaving s"
    by (simp add: clip_pending_inv_def)
  have "clipAutosavePending (step s ev) \<longrightarrow> clipSaving (step s ev)"
  proof (cases ev)
    case SaveMemoClick
    with p show ?thesis by (simp add: clip_pending_frame)
  next
    case AutosaveTimer
    with p show ?thesis
      by (simp add: autosave_fired_def Let_def clip_pending_frame split: option.splits)
  next
    case (MemoSaveDone i res)
    with p show ?thesis by (simp add: clip_pending_frame)
  next
    case (ClipPostDone j res)
    with p show ?thesis
      by (cases "writer (clip_posts s ! j)"; cases res) (auto simp: client_defs)
  qed (use p in \<open>auto simp: client_defs split: option.splits api_result.splits list.splits\<close>)
  with sf show ?thesis
    by (simp add: clip_pending_inv_def)
qed

lemma clip_sends_step:
  assumes "clip_pending_inv s" and "clip_quiet ev"
  shows "(if length (clip_posts s) < length (clip_posts (step s ev)) then 1 else 0) +
         clip_budget (step s ev) \<le> clip_budget s"
proof (cases ev)
  case ClipAutosaveTimer
  from assms(1) have p: "clipAutosavePending s \<longrightarrow> clipSaving s"
    by (simp add: clip_pending_inv_def)
  show ?thesis
  proof (cases "clipAutosaveTimer s")
    case None
    with ClipAutosaveTimer show ?thesis
      by (simp add: clip_autosave_fired_def)
  next
    case (Some d)
    with p ClipAutosaveTimer show ?thesis
      by (auto simp: clip_autosave_fired_def clip_budget_def Let_def)
  qed
next
  case (ClipPostDone j res)
  show ?thesis
  proof (cases "j < length (clip_posts s)")
    case False
    with ClipPostDone show ?thesis by simp
  next
    case True
    have len: "length (clip_posts (step s ev)) \<le> length (clip_posts s)"
      using True ClipPostDone
      by (cases "writer (clip_posts s ! j)") (simp_all add: clip_resume_def remove_nth_def)
    have "clip_budget (step s ev) \<le> clip_budget s"
      using True ClipPostDone
      by (cases "writer (clip_posts s ! j)"; cases res)
        (simp_all add: clip_budget_def client_defs)
    with len show ?thesis
      by simp
  qed
qed (use assms(2) in simp_all)

lemma clip_sends_quiet:
  "clip_pending_inv s \<Longrightarrow> list_all clip_quiet evs \<Longrightarrow>
   clip_sends s evs + clip_budget (run s evs) \<le> clip_budget s"
proof (induction evs arbitrary: s)
  case Nil
  then show ?case by (simp add: run_def)
next
  case (Cons ev evs)
  from Cons.prems have q: "clip_quiet ev" "list_all clip_quiet evs"
    by simp_all
  have "clip_sends (step s ev) evs + clip_budget (run (step s ev) evs) \<le> clip_budget (step s ev)"
    using Cons.prems(1) q(2) by (intro Cons.IH clip_pending_inv_step)
  moreover note clip_sends_step [OF Cons.prems(1) q(1)]
  moreover have "run s (ev # evs) = run (step s ev) evs"
    by (simp add: run_def)
  ultimately show ?case
    by simp
qed

lemma pending_inv_run:
  "memo_pending_inv s \<Longrightarrow> clip_pending_inv s \<Longrightarrow>
   memo_pending_inv (run s evs) \<and> clip_pending_inv (run s evs)"
  unfolding run_def
  by (induction evs arbitrary: s) (simp_all add: memo_pending_inv_step clip_pending_inv_step)

lemma pending_inv_init: "memo_pending_inv (init_client tok)" "clip_pending_inv (init_client tok)"
  by (simp_all add: memo_pending_inv_def clip_pending_inv_def single_flight_init)
    (simp_all add: init_client_def)

text \<open>
  Bounds that hold in every state the client can reach, whatever the stored token and
  the events: at most one memo save, at most one manual clip save and at most one clip
  clear are in flight; and the timers and completions that follow without the user send
  at most one more memo save and at most one more clip save.
\<close>

lemma guarded_single_flight:
  "length (memo_saves (run (init_client tok) evs)) \<le> 1 \<and>
   in_flight SaveClip (run (init_client tok) evs) \<le> 1 \<and>
   in_flight ClearClip (run (init_client tok) evs) \<le> 1 \<and>
   (list_all memo_quiet qs \<longrightarrow> memo_sends (run (init_client tok) evs) qs \<le> 1) \<and>
   (list_all clip_quiet qs \<longrightarrow> clip_sends (run (init_client tok) evs) qs \<le> 1)"
proof -
  let ?s = "run (init_client tok) evs"
  from pending_inv_run [OF pending_inv_init] have
    m: "memo_pending_inv ?s" and c: "clip_pending_inv ?s"
    by simp_all
  have mb: "memo_budget ?s \<le> 1" and cb: "clip_budget ?s \<le> 1"
    by (simp_all add: memo_budget_def clip_budget_def)
  have "memo_sends ?s qs \<le> 1" if "list_all memo_quiet qs"
    using memo_sends_quiet [OF m that] mb by simp
  moreover have "clip_sends ?s qs \<le> 1" if "list_all clip_quiet qs"
    using clip_sends_quiet [OF c that] cb by simp
  ultimately show ?thesis
    using m c by (simp add: memo_pending_inv_def clip_pending_inv_def memo_single_flight_def
        clip_single_flight_def)
qed

text \<open>
  Claim C1 at runs the code breaks it on. The clip draft gets two saves in flight: the
  autosave callback tests \<open>clipSaving\<close> but sends its request without setting it, so
  a manual save starts while the autosave is in flight (the memo draft sends its autosave
  through \<open>saveMemo\<close>, which sets \<open>isSaving\<close>); and \<open>clearClip\<close> has a flag of its
  own, so a clear starts while a manual save is in flight. The follow-up save is sent
  once, however many edits arrived, when the save in flight fails; when it succeeds no
  follow-up is sent at all. For the memo, \<open>selectMemo\<close> puts the saved record over
  what was typed during the flight and clears the dirty flag. For the clip, \<open>saveClip\<close>
  takes the text of the box at completion, not the text it sent, as the snapshot, so the
  timer finds nothing to save and the later edits never reach the server.
\<close>

theorem single_flight_violated:
  "clip_posts (run (init_client ''t'') [EditClip ''a'', ClipAutosaveTimer, SaveClipClick])
     = [\<lparr>writer = ClipAutosave, sent_text = ''a'', clip_bearer = ''t''\<rparr>,
        \<lparr>writer = SaveClip, sent_text = ''a'', clip_bearer = ''t''\<rparr>] \<and>
   clip_posts (run (init_client ''t'') [SaveClipClick, ClearClipClick])
     = [\<lparr>writer = SaveClip, sent_text = [], clip_bearer = ''t''\<rparr>,
        \<lparr>writer = ClearClip, sent_text = [], clip_bearer = ''t''\<rparr>] \<and>
   memo_sends (run (init_client ''t'') ex_editing) [MemoSaveDone 0 Failure, AutosaveTimer] = 1 \<and>
   memo_sends (run (init_client ''t'') ex_editing)
     [MemoSaveDone 0 (Success (ex_memo ''abc'')), AutosaveTimer] = 0 \<and>
   editorContent (run (init_client ''t'') ex_editing) = ''abcde'' \<and>
   editorContent (run (init_client ''t'') (ex_editing @ [MemoSaveDone 0 (Success (ex_memo ''abc''))]))
     = ''abc'' \<and>
   clip_sends (run (init_client ''t'') ex_editing) [ClipPostDone 0 Failure, ClipAutosaveTimer] = 1 \<and>
   clip_sends (run (init_client ''t'') ex_editing)
     [ClipPostDone 0 (Success \<lparr>payload_text = Some ''x'', payload_created_at = None\<rparr>),
      ClipAutosaveTimer] = 0 \<and>
   map sent_text (clip_posts (run (init_client ''t'') ex_editing)) = [''x''] \<and>
   clipLastSavedText (run (init_client ''t'')
       (ex_editing @ [ClipPostDone 0 (Success \<lparr>payload_text = Some ''x'', payload_created_at = None\<rparr>)]))
     = ''xyz''"
  by (simp add: client_eval)

end
